theory Spec2Isabelle
  imports Main
begin

section \<open>JavaScript strings\<close>

text \<open>
  Strings are \<^typ>\<open>string\<close> (lists of 8-bit characters). The case mapping is the ASCII
  part of \<open>String.prototype.toLowerCase\<close>; characters outside \<open>A-Z\<close> are left alone.
\<close>

definition lowerChar :: "char \<Rightarrow> char" where
  "lowerChar c =
     (let n = of_char c :: nat in if 65 \<le> n \<and> n \<le> 90 then char_of (n + 32) else c)"

definition toLowerCase :: "string \<Rightarrow> string" where
  "toLowerCase s = map lowerChar s"

text \<open>\<open>s.startsWith(p)\<close>, \<open>s.endsWith(p)\<close> and \<open>s.includes(t)\<close>.\<close>

definition startsWith :: "string \<Rightarrow> string \<Rightarrow> bool" where
  "startsWith s p = (take (length p) s = p)"

definition endsWith :: "string \<Rightarrow> string \<Rightarrow> bool" where
  "endsWith s p = (length p \<le> length s \<and> drop (length s - length p) s = p)"

fun includesStr :: "string \<Rightarrow> string \<Rightarrow> bool" where
  "includesStr [] t = (t = [])"
| "includesStr (c # s) t = (startsWith (c # s) t \<or> includesStr s t)"

text \<open>\<open>s.split(sep)\<close> for a one-character separator: never returns the empty array.\<close>

fun split :: "char \<Rightarrow> string \<Rightarrow> string list" where
  "split sep [] = [[]]"
| "split sep (c # s) =
     (if c = sep then [] # split sep s
      else (case split sep s of p # ps \<Rightarrow> (c # p) # ps | [] \<Rightarrow> [[c]]))"

text \<open>The regular expression class \<open>[a-zA-Z0-9]\<close>.\<close>

definition isAlnum :: "char \<Rightarrow> bool" where
  "isAlnum c =
     (let n = of_char c :: nat
      in (97 \<le> n \<and> n \<le> 122) \<or> (65 \<le> n \<and> n \<le> 90) \<or> (48 \<le> n \<and> n \<le> 57))"

text \<open>Decimal rendering of a number, as template literals and \<open>toString()\<close> produce it.\<close>

definition digitChar :: "nat \<Rightarrow> char" where
  "digitChar d = char_of (48 + d)"

function natToString :: "nat \<Rightarrow> string" where
  "natToString n = (if n < 10 then [digitChar n] else natToString (n div 10) @ [digitChar (n mod 10)])"
  by pat_completeness auto
termination
  by (relation "measure (\<lambda>n. n)") auto

definition intToString :: "int \<Rightarrow> string" where
  "intToString i = (if i < 0 then CHR ''-'' # natToString (nat (- i)) else natToString (nat i))"

section \<open>Findings\<close>

text \<open>
  The evidence entries and payloads of a Finding. Optional properties of the JavaScript
  objects are options; \<open>category\<close> and \<open>severity\<close> stay strings, as the code compares
  them with string literals. The weight is a JavaScript number holding a small integer.
\<close>

record evidence_item =
  ev_file :: string
  ev_line :: "nat option"
  ev_url :: "string option"
  ev_snippet :: "string option"

record dependencyInfo =
  dep_name :: string
  dep_version :: string
  ecosystem :: string
  dep_source :: string

record codeUsage =
  files :: "string list"
  locations :: "evidence_item list"

record riskInfo =
  risk_type :: string
  risk_count :: nat

record huggingfaceInfo =
  hf_author :: "string option"
  pipeline_tag :: "string option"
  library_name :: "string option"

record modelInfo =
  provider :: string
  modelName :: string
  modelType :: "string option"
  huggingface :: "huggingfaceInfo option"
  detectionSource :: "string option"

record finding =
  fid :: string
  title :: string
  category :: string
  severity :: string
  weight :: int
  description :: string
  evidence :: "evidence_item list"
  dependencyInfo :: "dependencyInfo option"
  modelInfo :: "modelInfo option"
  riskInfo :: "riskInfo option"
  codeUsage :: "codeUsage option"

section \<open>Scoring (analyzer.js)\<close>

text \<open>\<open>findings.reduce((sum, finding) => sum + finding.weight, 0)\<close>\<close>

definition calculateScore :: "finding list \<Rightarrow> int" where
  "calculateScore findings = foldl (\<lambda>sum finding. sum + weight finding) 0 findings"

section \<open>Risk assessment unit\<close>

text \<open>
  The parsed documentation sections the risk detector reads, and the part of
  \<open>riskDetector\<close> that creates Findings (the keyword scan before it only fills the
  \<open>risks\<close> object, which is returned beside the findings and is no Finding).
\<close>

record docSection =
  doc_file :: string
  doc_text :: string

record parsed_docs =
  limitations :: "docSection list"
  biasInformation :: "docSection list"
  ethicalConsiderations :: "docSection list"

definition docEvidence :: "docSection list \<Rightarrow> evidence_item list" where
  "docEvidence ds =
     map (\<lambda>l. \<lparr>ev_file = doc_file l, ev_line = None, ev_url = None,
                ev_snippet = Some (take 200 (doc_text l))\<rparr>) (take 3 ds)"

definition riskFinding :: "string \<Rightarrow> string \<Rightarrow> string \<Rightarrow> string \<Rightarrow> docSection list \<Rightarrow> finding" where
  "riskFinding i t d rt ds =
     \<lparr>fid = i, title = t, category = ''governance'', severity = ''info'', weight = 0,
      description = d @ natToString (length ds) @ '' location(s)'',
      evidence = docEvidence ds,
      dependencyInfo = None, modelInfo = None,
      riskInfo = Some \<lparr>risk_type = rt, risk_count = length ds\<rparr>,
      codeUsage = None\<rparr>"

definition riskDetector :: "parsed_docs \<Rightarrow> finding list" where
  "riskDetector docs =
     (if length (limitations docs) > 0
      then [riskFinding ''risk-limitations-documented'' ''Limitations Documented''
              ''Model limitations are documented in '' ''limitations'' (limitations docs)]
      else []) @
     (if length (biasInformation docs) > 0
      then [riskFinding ''risk-bias-documented'' ''Bias/Fairness Documented''
              ''Bias and fairness considerations documented in '' ''bias-fairness''
              (biasInformation docs)]
      else []) @
     (if length (ethicalConsiderations docs) > 0
      then [riskFinding ''risk-ethics-documented'' ''Ethical Considerations Documented''
              ''Ethical considerations documented in '' ''ethical''
              (ethicalConsiderations docs)]
      else [])"

section \<open>Model-name validation filter\<close>

text \<open>
  \<open>isValidModelName(name, provider)\<close>. The anchored regular expressions of the source
  are prefix and suffix tests; the extension test is case-insensitive (flag \<open>i\<close>).
\<close>

definition mimeTypePrefixes :: "string list" where
  "mimeTypePrefixes =
     [''application/'', ''image/'', ''text/'', ''font/'', ''audio/'', ''video/'', ''multipart/'']"

definition frameworkPatterns :: "string list" where
  "frameworkPatterns =
     [''next/'', ''react/'', ''vue/'', ''angular/'', ''@angular/'', ''lodash/'', ''jquery/'',
      ''bootstrap/'', ''tailwind/'']"

definition cssPrefixes :: "string list" where
  "cssPrefixes =
     [''text'', ''bg'', ''border'', ''shadow'', ''rounded'', ''flex'', ''grid'', ''gap'',
      ''p'', ''m'', ''w'', ''h'']"

definition invalidNames :: "string list" where
  "invalidNames = [''n/a'', ''none'', ''null'', ''undefined'', ''todo'', ''fixme'', ''tbd'']"

definition fileExtensions :: "string list" where
  "fileExtensions =
     [''js'', ''ts'', ''jsx'', ''tsx'', ''py'', ''java'', ''go'', ''css'', ''html'', ''json'',
      ''xml'', ''yml'', ''yaml'']"

definition isValidModelName :: "string \<Rightarrow> string \<Rightarrow> bool" where
  "isValidModelName name prov =
     (if name = [] then False
      else if prov \<noteq> ''HuggingFace'' then True
      else let lowerName = toLowerCase name in
        if list_ex (\<lambda>prefix. startsWith lowerName prefix) mimeTypePrefixes then False
        else if list_ex (\<lambda>pattern. startsWith lowerName pattern) frameworkPatterns then False
        else if list_ex (\<lambda>p. startsWith lowerName (p @ ''-'')) cssPrefixes then False
        else if List.member invalidNames lowerName then False
        else (case split CHR ''/'' name of
            [org, model] \<Rightarrow>
              if length org < 2 \<or> length org > 50 \<or> \<not> (case org of c # _ \<Rightarrow> isAlnum c | [] \<Rightarrow> False)
              then False
              else if length model < 2 \<or> length model > 100 then False
              else if includesStr name ''://'' \<or> includesStr name ''www.'' \<or> includesStr name ''.com''
                      \<or> includesStr name ''.org''
              then False
              else if list_ex (\<lambda>ext. endsWith lowerName (CHR ''.'' # ext)) fileExtensions then False
              else True
          | _ \<Rightarrow> False))"

section \<open>Finding reconciler (analyzer.js)\<close>

text \<open>
  A JavaScript \<open>Map\<close> iterates in insertion order, and \<open>set\<close> on a key that is already
  present replaces the value where the key stands. \<open>dependencyMap\<close> is such a map, an
  association list with distinct keys.
\<close>

fun mapSet :: "'k \<Rightarrow> 'v \<Rightarrow> ('k \<times> 'v) list \<Rightarrow> ('k \<times> 'v) list" where
  "mapSet k v [] = [(k, v)]"
| "mapSet k v ((k', v') # m) = (if k' = k then (k, v) # m else (k', v') # mapSet k v m)"

text \<open>First pass: \<open>dependencyMap\<close>, package name in lower case to dependency finding.\<close>

definition collectStep :: "(string \<times> finding) list \<Rightarrow> finding \<Rightarrow> (string \<times> finding) list" where
  "collectStep dependencyMap finding =
     (case dependencyInfo finding of
        Some di \<Rightarrow>
          if category finding = ''dependencies''
          then mapSet (toLowerCase (dep_name di)) finding dependencyMap
          else dependencyMap
      | None \<Rightarrow> dependencyMap)"

definition collectDependencies :: "finding list \<Rightarrow> (string \<times> finding) list" where
  "collectDependencies findings = foldl collectStep [] findings"

text \<open>The disjunction \<open>matches\<close>; \<open>title'\<close> is the code finding's title in lower case.\<close>

definition titleMatches :: "string \<Rightarrow> string \<Rightarrow> bool" where
  "titleMatches title' depPkgName =
     (let depNameLower = toLowerCase depPkgName in
        (includesStr title' ''langchain'' \<and> includesStr depNameLower ''langchain'') \<or>
        (includesStr title' ''openai'' \<and> \<not> includesStr title' ''compatible''
           \<and> includesStr depNameLower ''openai'') \<or>
        (includesStr title' ''anthropic'' \<and> includesStr depNameLower ''anthropic'') \<or>
        (includesStr title' ''google'' \<and> includesStr depNameLower ''google'') \<or>
        (includesStr title' ''cohere'' \<and> includesStr depNameLower ''cohere'') \<or>
        (includesStr title' ''mistral'' \<and> includesStr depNameLower ''mistral'') \<or>
        (includesStr title' ''huggingface''
           \<and> (includesStr depNameLower ''transformers'' \<or> includesStr depNameLower ''huggingface'')) \<or>
        (includesStr title' ''litellm'' \<and> includesStr depNameLower ''litellm''))"

text \<open>
  Second pass: \<open>codeMap\<close>, package name to the code findings matched with it. The map is
  only read through \<open>codeMap.get(pkgName) || []\<close>, so it is a function whose value at a
  key never set is the empty list; \<open>push\<close> appends.
\<close>

definition matchDeps ::
  "string \<Rightarrow> finding \<Rightarrow> (string \<Rightarrow> finding list) \<Rightarrow> (string \<times> finding) list
    \<Rightarrow> (string \<Rightarrow> finding list)" where
  "matchDeps title' finding codeMap dependencyMap =
     foldl (\<lambda>cm (depPkgName, depFinding).
              if titleMatches title' depPkgName then cm(depPkgName := cm depPkgName @ [finding])
              else cm)
       codeMap dependencyMap"

definition matchStep ::
  "(string \<times> finding) list \<Rightarrow> (string \<Rightarrow> finding list) \<Rightarrow> finding \<Rightarrow> (string \<Rightarrow> finding list)" where
  "matchStep dependencyMap codeMap finding =
     (if category finding = ''code'' \<and> title finding \<noteq> []
      then let title' = toLowerCase (title finding) in
        if includesStr title' ''openai-compatible'' \<or> includesStr title' ''compatible''
        then codeMap
        else matchDeps title' finding codeMap dependencyMap
      else codeMap)"

definition matchCode :: "(string \<times> finding) list \<Rightarrow> finding list \<Rightarrow> (string \<Rightarrow> finding list)" where
  "matchCode dependencyMap findings = foldl (matchStep dependencyMap) (\<lambda>_. []) findings"

text \<open>
  The unified finding. It is an object literal with exactly these properties, so every
  other payload is absent. A version string is truthy when it is not empty.
\<close>

definition mergedFinding :: "finding \<Rightarrow> dependencyInfo \<Rightarrow> finding list \<Rightarrow> finding" where
  "mergedFinding depFinding di codeFindings =
     \<lparr>fid = fid depFinding,
      title = dep_name di @ '' - Usage Detected'',
      category = ''dependencies'',
      severity = ''high'',
      weight = weight depFinding,
      description = dep_name di
         @ (if dep_version di \<noteq> [] then '' ('' @ dep_version di @ '')'' else [])
         @ '' is installed and used in code'',
      evidence = evidence depFinding @ concat (map evidence codeFindings),
      dependencyInfo = Some di,
      modelInfo = None,
      riskInfo = None,
      codeUsage = Some \<lparr>files = concat (map (\<lambda>cf. map ev_file (evidence cf)) codeFindings),
                        locations = concat (map evidence codeFindings)\<rparr>\<rparr>"

text \<open>
  Third pass over \<open>dependencyMap\<close>: the state is the array \<open>merged\<close> and the set
  \<open>processedCode\<close> of ids. Every finding in \<open>dependencyMap\<close> has a \<open>dependencyInfo\<close>
  (the first pass stores no other), so the last case is never taken; there JavaScript
  would raise a TypeError, and the model leaves the state as it is.
\<close>

definition mergeStep ::
  "(string \<Rightarrow> finding list) \<Rightarrow> finding list \<times> string set \<Rightarrow> string \<times> finding
     \<Rightarrow> finding list \<times> string set" where
  "mergeStep codeMap st entry =
     (case (st, entry) of ((merged, processedCode), (pkgName, depFinding)) \<Rightarrow>
        let codeFindings = codeMap pkgName in
        if length codeFindings > 0
        then (case dependencyInfo depFinding of
                Some di \<Rightarrow> (merged @ [mergedFinding depFinding di codeFindings],
                            processedCode \<union> set (map fid codeFindings))
              | None \<Rightarrow> (merged, processedCode))
        else (merged @ [depFinding], processedCode))"

text \<open>Last pass: code findings not merged, and every finding of another category.\<close>

definition keepStep :: "string set \<Rightarrow> finding list \<Rightarrow> finding \<Rightarrow> finding list" where
  "keepStep processedCode merged finding =
     (if category finding = ''code'' \<and> fid finding \<notin> processedCode then merged @ [finding]
      else if category finding \<noteq> ''dependencies'' \<and> category finding \<noteq> ''code''
      then merged @ [finding]
      else merged)"

definition mergeDependencyAndCodeFindings :: "finding list \<Rightarrow> finding list" where
  "mergeDependencyAndCodeFindings findings =
     (let dependencyMap = collectDependencies findings;
          codeMap = matchCode dependencyMap findings;
          (merged, processedCode) = foldl (mergeStep codeMap) ([], {}) dependencyMap
      in foldl (keepStep processedCode) merged findings)"

section \<open>Code-usage detection unit\<close>

text \<open>
  \<open>searchCodeInRepo\<close> is the transport: it answers \<open>false\<close> when the rate limit is hit,
  \<open>null\<close> on another failure, or the items with the rate limit read from the response
  headers. An item is taken as the file information stored for it (path, line, url and
  snippet; the line is looked up through \<open>getFileContent\<close>, outside this model).
\<close>

record rate_limit =
  remaining :: int
  limit :: int
  resetTime :: "int option"

datatype search_response = RateLimited | NoResult | Results "evidence_item list" rate_limit

record search =
  query :: string
  search_provider :: string

record sdk_entry =
  sdk_provider :: string
  sdk_files :: "evidence_item list"

record resume_state =
  sdkFindings :: "(string \<times> sdk_entry) list"
  lastSearchIndex :: nat
  lastRateLimit :: rate_limit
  rs_findings :: "finding list"

record sbom_dep =
  sbom_name :: string
  sbom_version :: string
  sbom_ecosystem :: string

text \<open>A JavaScript \<open>Set\<close> keeps insertion order and ignores a value it already has.\<close>

definition setAdd :: "'a \<Rightarrow> 'a list \<Rightarrow> 'a list" where
  "setAdd x xs = (if x \<in> set xs then xs else xs @ [x])"

fun joinWith :: "string \<Rightarrow> string list \<Rightarrow> string" where
  "joinWith sep [] = []"
| "joinWith sep [x] = x"
| "joinWith sep (x # y # ys) = x @ sep @ joinWith sep (y # ys)"

definition extensionMap :: "(string \<times> string list) list" where
  "extensionMap =
     [(''JavaScript'', [''js'', ''jsx'', ''mjs'', ''cjs'']),
      (''TypeScript'', [''ts'', ''tsx'']),
      (''Python'', [''py'', ''pyw'']),
      (''Java'', [''java'']),
      (''Go'', [''go'']),
      (''Rust'', [''rs'']),
      (''Ruby'', [''rb'']),
      (''PHP'', [''php'']),
      (''C'', [''c'', ''h'']),
      (''C++'', [''cpp'', ''cc'', ''cxx'', ''hpp'', ''hxx'']),
      (''C#'', [''cs'']),
      (''Kotlin'', [''kt'', ''kts'']),
      (''Scala'', [''scala'']),
      (''Swift'', [''swift''])]"

definition languageExtensions :: "string list \<Rightarrow> string list" where
  "languageExtensions langs =
     foldl (\<lambda>extensions lang.
              case map_of extensionMap lang of
                Some exts \<Rightarrow> foldl (\<lambda>e ext. setAdd (''extension:'' @ ext) e) extensions exts
              | None \<Rightarrow> extensions)
       [] langs"

definition codeExtensionsFor :: "string list \<Rightarrow> string" where
  "codeExtensionsFor langs =
     (let extensions = languageExtensions langs in
      if length extensions > 0 then joinWith '' '' extensions
      else ''extension:py extension:js extension:ts extension:jsx extension:tsx extension:java extension:go'')"

text \<open>The planned queries: smart mode from the SBOM dependencies, fallback mode otherwise.\<close>

definition mkSearch :: "string \<Rightarrow> string \<Rightarrow> string \<Rightarrow> search" where
  "mkSearch pat codeExtensions prov = \<lparr>query = pat @ '' '' @ codeExtensions, search_provider = prov\<rparr>"

definition smartSearches :: "string list \<Rightarrow> string \<Rightarrow> search list" where
  "smartSearches depNames codeExtensions =
     (if list_ex (\<lambda>n. includesStr n ''openai'' \<and> \<not> includesStr n ''langchain'') depNames
      then [mkSearch ''from openai import'' codeExtensions ''OpenAI'',
            mkSearch ''openai.chat.completions'' codeExtensions ''OpenAI'',
            mkSearch ''api.openai.com'' codeExtensions ''OpenAI'']
      else []) @
     (if list_ex (\<lambda>n. includesStr n ''anthropic'') depNames
      then [mkSearch ''from anthropic import'' codeExtensions ''Anthropic'',
            mkSearch ''@anthropic-ai/sdk'' codeExtensions ''Anthropic'',
            mkSearch ''api.anthropic.com'' codeExtensions ''Anthropic'']
      else []) @
     (if list_ex (\<lambda>n. includesStr n ''langchain'') depNames
      then [mkSearch ''from langchain'' codeExtensions ''LangChain''] @
           (if list_ex (\<lambda>n. includesStr n ''langchain-openai'' \<or> includesStr n ''langchain_openai'') depNames
            then [mkSearch ''ChatOpenAI'' codeExtensions ''LangChain-OpenAI''] else []) @
           (if list_ex (\<lambda>n. includesStr n ''langchain-google'' \<or> includesStr n ''langchain_google'') depNames
            then [mkSearch ''ChatGoogleGenerativeAI'' codeExtensions ''LangChain-Google''] else []) @
           (if list_ex (\<lambda>n. includesStr n ''langchain-anthropic'' \<or> includesStr n ''langchain_anthropic'') depNames
            then [mkSearch ''ChatAnthropic'' codeExtensions ''LangChain-Anthropic''] else [])
      else []) @
     (if list_ex (\<lambda>n. includesStr n ''google'' \<or> includesStr n ''generativeai'' \<or> includesStr n ''gemini'') depNames
      then [mkSearch ''google.generativeai'' codeExtensions ''Google'',
            mkSearch ''gemini'' codeExtensions ''Google'']
      else []) @
     (if list_ex (\<lambda>n. includesStr n ''cohere'') depNames
      then [mkSearch ''from cohere import'' codeExtensions ''Cohere''] else []) @
     (if list_ex (\<lambda>n. includesStr n ''mistral'') depNames
      then [mkSearch ''from mistralai import'' codeExtensions ''Mistral''] else []) @
     (if list_ex (\<lambda>n. includesStr n ''transformers'' \<or> includesStr n ''diffusers'' \<or> includesStr n ''huggingface'') depNames
      then [mkSearch ''from transformers import'' codeExtensions ''HuggingFace'',
            mkSearch ''AutoModel'' codeExtensions ''HuggingFace'']
      else []) @
     [mkSearch ''/v1/chat/completions'' codeExtensions ''OpenAI-compatible'']"

definition fallbackSearches :: "string \<Rightarrow> search list" where
  "fallbackSearches codeExtensions =
     [mkSearch ''from openai import'' codeExtensions ''OpenAI'',
      mkSearch ''openai.chat.completions'' codeExtensions ''OpenAI'',
      mkSearch ''from anthropic import'' codeExtensions ''Anthropic'',
      mkSearch ''@anthropic-ai/sdk'' codeExtensions ''Anthropic'',
      mkSearch ''from langchain'' codeExtensions ''LangChain'',
      mkSearch ''ChatOpenAI'' codeExtensions ''OpenAI'',
      mkSearch ''google.generativeai'' codeExtensions ''Google'',
      mkSearch ''api.openai.com'' codeExtensions ''OpenAI'',
      mkSearch ''api.anthropic.com'' codeExtensions ''Anthropic'',
      mkSearch ''/v1/chat/completions'' codeExtensions ''OpenAI-compatible'']"

definition buildSearches :: "bool \<Rightarrow> sbom_dep list \<Rightarrow> string \<Rightarrow> search list" where
  "buildSearches sbomAvail detectedDeps codeExtensions =
     (if sbomAvail \<and> length detectedDeps > 0
      then take 10 (smartSearches (map (\<lambda>d. toLowerCase (sbom_name d)) detectedDeps) codeExtensions)
      else fallbackSearches codeExtensions)"

text \<open>\<open>convertSearchToFindings\<close>: one finding for each provider with at least one file.\<close>

definition searchFinding :: "string \<Rightarrow> sdk_entry \<Rightarrow> finding" where
  "searchFinding key data =
     \<lparr>fid = ''code-sdk-search-'' @ key,
      title = sdk_provider data @ '' SDK Usage Detected (via Search API)'',
      category = ''code'', severity = ''high'', weight = 5,
      description = ''Found '' @ sdk_provider data @ '' SDK usage in ''
         @ natToString (length (sdk_files data)) @ '' file(s) using GitHub Search API'',
      evidence = take 5 (sdk_files data),
      dependencyInfo = None, modelInfo = None, riskInfo = None, codeUsage = None\<rparr>"

definition convertSearchToFindings :: "(string \<times> sdk_entry) list \<Rightarrow> finding list" where
  "convertSearchToFindings sdk =
     concat (map (\<lambda>(key, data). if length (sdk_files data) = 0 then [] else [searchFinding key data]) sdk)"

text \<open>The end of the loop body: the items of a result are added under the provider's key.\<close>

definition addItems :: "string \<Rightarrow> evidence_item list \<Rightarrow> (string \<times> sdk_entry) list \<Rightarrow> (string \<times> sdk_entry) list" where
  "addItems prov items sdk =
     (let key = prov @ ''-search'';
          sdk1 = (case map_of sdk key of
                    None \<Rightarrow> mapSet key \<lparr>sdk_provider = prov, sdk_files = []\<rparr> sdk
                  | Some _ \<Rightarrow> sdk)
      in foldl (\<lambda>m item. case map_of m key of
                            Some e \<Rightarrow> mapSet key (e\<lparr>sdk_files := setAdd item (sdk_files e)\<rparr>) m
                          | None \<Rightarrow> m)
           sdk1 items)"

record search_result =
  sr_findings :: "finding list"
  sr_paused :: bool
  sr_resumeState :: "resume_state option"

text \<open>
  The loop of \<open>searchCodeViaAPI\<close> from index \<open>i\<close>. The world \<open>w\<close> is whatever the
  transport reads and changes; each call of \<open>searchCodeInRepo\<close> is one request.
\<close>

function searchLoop ::
  "('w \<Rightarrow> string \<Rightarrow> search_response \<times> 'w) \<Rightarrow> search list \<Rightarrow> finding list \<Rightarrow> nat
     \<Rightarrow> (string \<times> sdk_entry) list \<Rightarrow> rate_limit \<Rightarrow> 'w \<Rightarrow> search_result \<times> 'w" where
  "searchLoop searchCodeInRepo searches fs i sdk rl w =
     (if i < length searches
      then (case searchCodeInRepo w (query (searches ! i)) of
              (RateLimited, w') \<Rightarrow>
                (\<lparr>sr_findings = convertSearchToFindings sdk, sr_paused = True,
                  sr_resumeState = Some \<lparr>sdkFindings = sdk, lastSearchIndex = i,
                                          lastRateLimit = rl, rs_findings = fs\<rparr>\<rparr>, w')
            | (NoResult, w') \<Rightarrow> searchLoop searchCodeInRepo searches fs (Suc i) sdk rl w'
            | (Results items rl', w') \<Rightarrow>
                if remaining rl' = 0
                then (\<lparr>sr_findings = convertSearchToFindings sdk, sr_paused = True,
                       sr_resumeState = Some \<lparr>sdkFindings = sdk, lastSearchIndex = i + 1,
                                               lastRateLimit = rl', rs_findings = fs\<rparr>\<rparr>, w')
                else searchLoop searchCodeInRepo searches fs (Suc i)
                       (addItems (search_provider (searches ! i)) items sdk) rl' w')
      else (\<lparr>sr_findings = convertSearchToFindings sdk, sr_paused = False,
             sr_resumeState = None\<rparr>, w))"
  by pat_completeness auto
termination
  by (relation "measure (\<lambda>(api, searches, fs, i, sdk, rl, w). length searches - i)") auto

definition searchCodeViaAPI ::
  "('w \<Rightarrow> string \<Rightarrow> search_response \<times> 'w) \<Rightarrow> resume_state option \<Rightarrow> string list \<Rightarrow> bool
     \<Rightarrow> sbom_dep list \<Rightarrow> 'w \<Rightarrow> search_result \<times> 'w" where
  "searchCodeViaAPI searchCodeInRepo resume langs sbomAvail detectedDeps w =
     (let fs = (case resume of Some rs \<Rightarrow> rs_findings rs | None \<Rightarrow> []);
          sdk = (case resume of Some rs \<Rightarrow> sdkFindings rs | None \<Rightarrow> []);
          codeExtensions = codeExtensionsFor langs;
          searches = buildSearches sbomAvail detectedDeps codeExtensions;
          startIdx = (case resume of Some rs \<Rightarrow> lastSearchIndex rs | None \<Rightarrow> 0);
          rl = (case resume of Some rs \<Rightarrow> lastRateLimit rs
                | None \<Rightarrow> \<lparr>remaining = 10, limit = 10, resetTime = None\<rparr>)
      in searchLoop searchCodeInRepo searches fs startIdx sdk rl w)"

section \<open>Unit results and unit inputs\<close>

text \<open>
  What a detection unit can return: the parsed documentation (the parser's object, which
  has no \<open>findings\<close> property), an object with a \<open>findings\<close> property, a plain array of
  findings, or another value. A unit can also throw.
\<close>

record obj_result =
  r_findings :: "finding list"
  r_aiFilesFound :: "string list option"
  r_sbomAvailable :: "bool option"
  r_dependencies :: "sbom_dep list option"
  r_parsedDocs :: "parsed_docs option"
  r_paused :: bool
  r_resumeState :: "resume_state option"

datatype unit_result = Docs parsed_docs | Obj obj_result | Arr "finding list" | Other

datatype js_error = Thrown string

text \<open>
  The input object of a unit: \<open>detectorInput\<close> (of which the token and the repository
  languages are read by the modelled code; \<open>tree\<close> and \<open>getFileContent\<close> belong to the
  world) and the context properties the orchestrator attaches.
\<close>

record detector_input =
  owner :: string
  repo :: string
  token :: "string option"
  languages :: "string list"
  in_aiFilesFound :: "string list option"
  in_allFindings :: "finding list option"
  in_sbomAvailable :: "bool option"
  in_detectedDependencies :: "sbom_dep list option"
  in_parsedDocs :: "unit_result option"
  in_resumeState :: "resume_state option"

type_synonym 'w unit_fn = "detector_input \<Rightarrow> 'w \<Rightarrow> (js_error + unit_result) \<times> 'w"

text \<open>
  \<open>codeDetector\<close>. With a token it searches through the API; the parameters
  \<open>sbomAvailable\<close> and \<open>detectedDependencies\<close> of \<open>searchCodeViaAPI\<close> default to \<open>false\<close>
  and \<open>[]\<close> when the input has no such property. Without a token it scans the files,
  which is the external \<open>scanFiles\<close> here.
\<close>

definition evidenceFiles :: "finding list \<Rightarrow> string list" where
  "evidenceFiles fs =
     foldl (\<lambda>acc ev. if ev_file ev \<noteq> [] \<and> ev_file ev \<notin> set acc then acc @ [ev_file ev] else acc)
       [] (concat (map evidence fs))"

definition codeDetector ::
  "('w \<Rightarrow> string \<Rightarrow> search_response \<times> 'w) \<Rightarrow> ('w \<Rightarrow> finding list \<times> 'w) \<Rightarrow> 'w unit_fn" where
  "codeDetector searchCodeInRepo scanFiles inp w =
     (if token inp \<noteq> None \<and> token inp \<noteq> Some []
      then (case searchCodeViaAPI searchCodeInRepo (in_resumeState inp) (languages inp)
                   (case in_sbomAvailable inp of Some b \<Rightarrow> b | None \<Rightarrow> False)
                   (case in_detectedDependencies inp of Some ds \<Rightarrow> ds | None \<Rightarrow> []) w of
              (searchResult, w') \<Rightarrow>
                (Inr (Obj \<lparr>r_findings = sr_findings searchResult,
                           r_aiFilesFound = Some (evidenceFiles (sr_findings searchResult)),
                           r_sbomAvailable = None, r_dependencies = None, r_parsedDocs = None,
                           r_paused = sr_paused searchResult,
                           r_resumeState = (if sr_paused searchResult
                                            then sr_resumeState searchResult else None)\<rparr>), w'))
      else (case scanFiles w of
              (fs, w') \<Rightarrow>
                (Inr (Obj \<lparr>r_findings = fs, r_aiFilesFound = Some [],
                           r_sbomAvailable = None, r_dependencies = None, r_parsedDocs = None,
                           r_paused = False, r_resumeState = None\<rparr>), w')))"

section \<open>Pipeline orchestrator (analyzer.js)\<close>

text \<open>
  The detection units, the clock and the timer are external: \<open>analyzeRepository\<close> is
  modelled for any of them. \<open>fn_codeDetector\<close> is the global \<open>codeDetector\<close>, which the
  detector table and the resumption both call.
\<close>

record 'w externals =
  fn_dependenciesDetector :: "'w unit_fn"
  fn_codeDetector :: "'w unit_fn"
  fn_metadataDetector :: "'w unit_fn"
  fn_modelsIdentifierDetector :: "'w unit_fn"
  fn_configDetector :: "'w unit_fn"
  fn_ciDetector :: "'w unit_fn"
  fn_modelsDetector :: "'w unit_fn"
  fn_promptsDetector :: "'w unit_fn"
  fn_hardwareDetector :: "'w unit_fn"
  fn_infrastructureDetector :: "'w unit_fn"
  fn_documentationParser :: "'w unit_fn"
  fn_riskDetector :: "'w unit_fn"
  now :: "'w \<Rightarrow> int"
  sleep :: "int \<Rightarrow> 'w \<Rightarrow> 'w"

record 'w detector =
  name :: string
  fn :: "'w unit_fn"
  canResume :: bool
  needsDependencies :: bool
  needsAIFiles :: bool
  needsAllFindings :: bool
  isParser :: bool
  needsParsedDocs :: bool

definition plainDetector :: "string \<Rightarrow> 'w unit_fn \<Rightarrow> 'w detector" where
  "plainDetector n f =
     \<lparr>name = n, fn = f, canResume = False, needsDependencies = False, needsAIFiles = False,
      needsAllFindings = False, isParser = False, needsParsedDocs = False\<rparr>"

definition detectors :: "'w externals \<Rightarrow> 'w detector list" where
  "detectors ext =
     [plainDetector ''Dependencies'' (fn_dependenciesDetector ext),
      (plainDetector ''Code'' (fn_codeDetector ext))\<lparr>canResume := True, needsDependencies := True\<rparr>,
      plainDetector ''Metadata'' (fn_metadataDetector ext),
      (plainDetector ''AI Models'' (fn_modelsIdentifierDetector ext))\<lparr>needsAIFiles := True\<rparr>,
      plainDetector ''Configuration'' (fn_configDetector ext),
      plainDetector ''CI/CD'' (fn_ciDetector ext),
      plainDetector ''Model Files'' (fn_modelsDetector ext),
      plainDetector ''Prompts'' (fn_promptsDetector ext),
      (plainDetector ''Hardware'' (fn_hardwareDetector ext))\<lparr>needsAllFindings := True\<rparr>,
      (plainDetector ''Infrastructure'' (fn_infrastructureDetector ext))\<lparr>needsAllFindings := True\<rparr>,
      (plainDetector ''Documentation'' (fn_documentationParser ext))\<lparr>isParser := True\<rparr>,
      (plainDetector ''Risk Assessment'' (fn_riskDetector ext))
         \<lparr>needsAllFindings := True, needsParsedDocs := True\<rparr>]"

text \<open>The local variables of \<open>analyzeRepository\<close>.\<close>

record pipeline =
  allFindings :: "finding list"
  codeResumeState :: "resume_state option"
  codeDetectorPaused :: bool
  aiFilesFound :: "string list"
  sbomAvailable :: bool
  detectedDependencies :: "sbom_dep list"
  parsedDocs :: "unit_result option"

definition initialPipeline :: pipeline where
  "initialPipeline =
     \<lparr>allFindings = [], codeResumeState = None, codeDetectorPaused = False, aiFilesFound = [],
      sbomAvailable = False, detectedDependencies = [], parsedDocs = None\<rparr>"

definition buildInput :: "detector_input \<Rightarrow> 'w detector \<Rightarrow> pipeline \<Rightarrow> detector_input" where
  "buildInput detectorInput d st =
     (let i0 = detectorInput;
          i1 = (if needsAIFiles d
                then i0\<lparr>in_aiFilesFound := Some (aiFilesFound st), in_allFindings := Some (allFindings st)\<rparr>
                else i0);
          i2 = (if needsDependencies d
                then i1\<lparr>in_sbomAvailable := Some (sbomAvailable st),
                        in_detectedDependencies := Some (detectedDependencies st)\<rparr>
                else i1);
          i3 = (if needsAllFindings d then i2\<lparr>in_allFindings := Some (allFindings st)\<rparr> else i2)
      in if needsParsedDocs d then i3\<lparr>in_parsedDocs := parsedDocs st\<rparr> else i3)"

text \<open>What the \<open>try\<close> block does with the value a unit returned.\<close>

definition handleResult :: "'w detector \<Rightarrow> unit_result \<Rightarrow> pipeline \<Rightarrow> pipeline" where
  "handleResult d result st =
     (if isParser d then st\<lparr>parsedDocs := Some result\<rparr>
      else (case result of
          Obj r \<Rightarrow>
            (let s1 = st\<lparr>allFindings := allFindings st @ r_findings r\<rparr>;
                 s2 = (case r_aiFilesFound r of Some fs \<Rightarrow> s1\<lparr>aiFilesFound := fs\<rparr> | None \<Rightarrow> s1);
                 s3 = (case r_sbomAvailable r of
                         Some b \<Rightarrow>
                           if name d = ''Dependencies''
                           then s2\<lparr>sbomAvailable := b,
                                   detectedDependencies :=
                                     (case r_dependencies r of Some ds \<Rightarrow> ds | None \<Rightarrow> [])\<rparr>
                           else s2
                       | None \<Rightarrow> s2);
                 s4 = (case r_parsedDocs r of
                         Some pd \<Rightarrow>
                           if name d = ''Risk Assessment'' then s3\<lparr>parsedDocs := Some (Docs pd)\<rparr> else s3
                       | None \<Rightarrow> s3)
             in if r_paused r \<and> canResume d
                then s4\<lparr>codeResumeState := r_resumeState r, codeDetectorPaused := True\<rparr>
                else s4)
        | Arr fs \<Rightarrow> st\<lparr>allFindings := allFindings st @ fs\<rparr>
        | _ \<Rightarrow> st))"

text \<open>
  One iteration of the loop. \<open>tryBlock\<close> is the body of \<open>try\<close>: an error of the unit
  leaves it at once. \<open>runDetector\<close> adds the \<open>catch\<close>, which logs the error and goes on
  with the variables as they were. \<open>runDetectors\<close> is the \<open>for\<close> loop; an error that
  left an iteration would leave the loop.
\<close>

definition tryBlock :: "detector_input \<Rightarrow> 'w detector \<Rightarrow> pipeline \<Rightarrow> 'w \<Rightarrow> (js_error + pipeline) \<times> 'w" where
  "tryBlock detectorInput d st w =
     (case fn d (buildInput detectorInput d st) w of
        (Inl err, w') \<Rightarrow> (Inl err, w')
      | (Inr result, w') \<Rightarrow> (Inr (handleResult d result st), w'))"

definition runDetector :: "detector_input \<Rightarrow> 'w detector \<Rightarrow> pipeline \<Rightarrow> 'w \<Rightarrow> (js_error + pipeline) \<times> 'w" where
  "runDetector detectorInput d st w =
     (case tryBlock detectorInput d st w of
        (Inl err, w') \<Rightarrow> (Inr st, w')
      | (Inr st', w') \<Rightarrow> (Inr st', w'))"

fun runDetectors :: "detector_input \<Rightarrow> 'w detector list \<Rightarrow> pipeline \<Rightarrow> 'w \<Rightarrow> (js_error + pipeline) \<times> 'w" where
  "runDetectors detectorInput [] st w = (Inr st, w)"
| "runDetectors detectorInput (d # ds) st w =
     (case runDetector detectorInput d st w of
        (Inl err, w') \<Rightarrow> (Inl err, w')
      | (Inr st', w') \<Rightarrow> runDetectors detectorInput ds st' w')"

text \<open>
  The resumption. The wait is bounded: it happens only when the reset time is less than
  120000 ms ahead. The resumed unit gets \<open>detectorInput\<close> and the resume state, and
  nothing else; its findings are added unless their id is already there. The call is in
  a \<open>try\<close> block of its own.
\<close>

definition waitForReset :: "'w externals \<Rightarrow> resume_state \<Rightarrow> 'w \<Rightarrow> 'w" where
  "waitForReset ext rs w =
     (case resetTime (lastRateLimit rs) of
        Some t \<Rightarrow>
          (let waitMs = t - now ext w in
           if waitMs > 0 \<and> waitMs < 120000 then sleep ext (waitMs + 1000) w else w)
      | None \<Rightarrow> w)"

definition resumeTry :: "'w externals \<Rightarrow> detector_input \<Rightarrow> resume_state \<Rightarrow> pipeline \<Rightarrow> 'w \<Rightarrow> (js_error + pipeline) \<times> 'w" where
  "resumeTry ext detectorInput rs st w =
     (case fn_codeDetector ext (detectorInput\<lparr>in_resumeState := Some rs\<rparr>) w of
        (Inl err, w') \<Rightarrow> (Inl err, w')
      | (Inr (Obj r), w') \<Rightarrow>
          (Inr (st\<lparr>allFindings := allFindings st
                     @ filter (\<lambda>f. fid f \<notin> set (map fid (allFindings st))) (r_findings r)\<rparr>), w')
      | (Inr _, w') \<Rightarrow> (Inr st, w'))"

definition resumeCode :: "'w externals \<Rightarrow> detector_input \<Rightarrow> pipeline \<Rightarrow> 'w \<Rightarrow> (js_error + pipeline) \<times> 'w" where
  "resumeCode ext detectorInput st w =
     (case codeResumeState st of
        Some rs \<Rightarrow>
          if codeDetectorPaused st
          then (case resumeTry ext detectorInput rs st (waitForReset ext rs w) of
                  (Inl err, w') \<Rightarrow> (Inr st, w')
                | (Inr st', w') \<Rightarrow> (Inr st', w'))
          else (Inr st, w)
      | None \<Rightarrow> (Inr st, w))"

record confidence =
  level :: string
  label :: string
  conf_description :: string

definition getConfidenceLevel :: "int \<Rightarrow> confidence" where
  "getConfidenceLevel score =
     (if score \<ge> 10
      then \<lparr>level = ''very-high'', label = ''Very High Confidence'', conf_description = ''Strong evidence detected''\<rparr>
      else if score \<ge> 5
      then \<lparr>level = ''high'', label = ''High Confidence'', conf_description = ''Likely LLM usage''\<rparr>
      else if score \<ge> 1
      then \<lparr>level = ''low'', label = ''Low Confidence'', conf_description = ''Weak signals detected''\<rparr>
      else \<lparr>level = ''none'', label = ''No Detection'', conf_description = ''No LLM usage detected''\<rparr>)"

record analysis_result =
  res_score :: int
  res_confidence :: confidence
  res_findings :: "finding list"

text \<open>
  \<open>analyzeRepository\<close>: the loop over the units, the resumption, the reconciliation and
  the score. An error that reaches this level is the \<open>Inl\<close> of the result: the promise
  is rejected and no analysis result is returned.
\<close>

definition runPipeline :: "'w externals \<Rightarrow> detector_input \<Rightarrow> 'w \<Rightarrow> (js_error + pipeline) \<times> 'w" where
  "runPipeline ext detectorInput w =
     (case runDetectors detectorInput (detectors ext) initialPipeline w of
        (Inl err, w') \<Rightarrow> (Inl err, w')
      | (Inr st, w') \<Rightarrow> resumeCode ext detectorInput st w')"

definition analyzeRepository :: "'w externals \<Rightarrow> detector_input \<Rightarrow> 'w \<Rightarrow> (js_error + analysis_result) \<times> 'w" where
  "analyzeRepository ext detectorInput w =
     (case runPipeline ext detectorInput w of
        (Inl err, w') \<Rightarrow> (Inl err, w')
      | (Inr st, w') \<Rightarrow>
          (let mergedFindings = mergeDependencyAndCodeFindings (allFindings st);
               score = calculateScore mergedFindings
           in (Inr \<lparr>res_score = score, res_confidence = getConfidenceLevel score,
                     res_findings = mergedFindings\<rparr>, w')))"

section \<open>BOM synthesis (utils.js)\<close>

text \<open>
  A component of the CycloneDX document. Of the properties of a model component the
  model keeps the detection source, the category, the intended use and the detection
  metadata; the related models, the download counts and the evidence locations are
  further properties with other names, and the licenses, external references and model
  card are further fields. None of them is read when the dependencies are built.
\<close>

record component =
  ctype :: string
  bom_ref :: string
  comp_name :: string
  comp_group :: "string option"
  comp_version :: string
  comp_description :: string
  purl :: "string option"
  properties :: "(string \<times> string) list"

record model_ref =
  mr_component :: component
  bomRef :: string

text \<open>
  \<open>generateShortId()\<close> draws random identifiers: \<open>gen n\<close> is the identifier of the
  \<open>n\<close>-th draw of a run, and the functions below pass the number of draws along.
  An optional string is truthy when it is present and not empty.
\<close>

definition truthyStr :: "string option \<Rightarrow> string option" where
  "truthyStr x = (case x of Some s \<Rightarrow> if s \<noteq> [] then Some s else None | None \<Rightarrow> None)"

definition modelCategory :: "modelInfo \<Rightarrow> (string \<times> string) list" where
  "modelCategory mi =
     (case truthyStr (modelType mi) of
        Some t \<Rightarrow>
          if t \<noteq> ''unknown'' then [(''category'', t)]
          else (case truthyStr (Option.bind (huggingface mi) pipeline_tag) of
                  Some pt \<Rightarrow> [(''category'', pt)]
                | None \<Rightarrow>
                    if includesStr (modelName mi) ''gpt'' then [(''category'', ''text-generation'')]
                    else if includesStr (modelName mi) ''embed'' then [(''category'', ''embeddings'')]
                    else [])
      | None \<Rightarrow>
          (case truthyStr (Option.bind (huggingface mi) pipeline_tag) of
             Some pt \<Rightarrow> [(''category'', pt)]
           | None \<Rightarrow>
               if includesStr (modelName mi) ''gpt'' then [(''category'', ''text-generation'')]
               else if includesStr (modelName mi) ''embed'' then [(''category'', ''embeddings'')]
               else []))"

definition intendedUse :: "modelInfo \<Rightarrow> (string \<times> string) list" where
  "intendedUse mi =
     (if modelType mi = Some ''text-generation''
      then [(''intended-use'', ''Text generation, chat completion, and language understanding'')]
      else if modelType mi = Some ''embeddings''
      then [(''intended-use'', ''Text embeddings for semantic search, similarity, and vector databases'')]
      else if modelType mi = Some ''text-to-image''
      then [(''intended-use'', ''Image generation from text descriptions'')]
      else if provider mi = ''OpenAI''
      then [(''intended-use'', ''General purpose AI model from OpenAI'')]
      else if provider mi = ''Anthropic''
      then [(''intended-use'', ''Safe and helpful AI assistant for various text tasks'')]
      else if provider mi = ''Google''
      then [(''intended-use'', ''Google AI model for various AI tasks'')]
      else [])"

definition modelComponent :: "finding \<Rightarrow> modelInfo \<Rightarrow> string \<Rightarrow> component" where
  "modelComponent f mi ref =
     (let hfNamed = (provider mi = ''HuggingFace'' \<and> huggingface mi \<noteq> None);
          parts = split CHR ''/'' (modelName mi)
      in \<lparr>ctype = ''machine-learning-model'',
          bom_ref = ref,
          comp_name = (if hfNamed then last parts else modelName mi),
          comp_group =
            (case huggingface mi of
               Some hf \<Rightarrow>
                 if provider mi = ''HuggingFace''
                 then (case hf_author hf of
                         Some a \<Rightarrow> if a \<noteq> [] then Some a else Some (hd parts)
                       | None \<Rightarrow> Some (hd parts))
                 else None
             | None \<Rightarrow> None),
          comp_version = ''latest'',
          comp_description = description f,
          purl =
            (if hfNamed then Some (''pkg:huggingface/'' @ modelName mi)
             else if provider mi = ''OpenAI'' then Some (''pkg:ml/openai/'' @ modelName mi)
             else if provider mi = ''Anthropic'' then Some (''pkg:ml/anthropic/'' @ modelName mi)
             else if provider mi = ''Google'' then Some (''pkg:ml/google/'' @ modelName mi)
             else None),
          properties =
            (case detectionSource mi of
               Some ds \<Rightarrow> if ds \<noteq> [] then [(''cdx:detection:source'', ds)] else []
             | None \<Rightarrow> [])
            @ modelCategory mi
            @ intendedUse mi
            @ [(''cdx:detection:method'', ''automated-code-analysis''),
               (''cdx:detection:confidence'', severity f),
               (''cdx:detection:weight'', intToString (weight f))]\<rparr>)"

text \<open>
  The component of a finding without \<open>modelInfo\<close>; the evidence properties
  (\<open>cdx:evidence:location:n\<close>, \<open>cdx:evidence:snippet:n\<close>) are left out.
\<close>

definition genericComponent :: "finding \<Rightarrow> string \<Rightarrow> component" where
  "genericComponent f ref =
     \<lparr>ctype = (if category f = ''dependencies'' then ''library'' else ''framework''),
      bom_ref = ref,
      comp_name = title f,
      comp_group = None,
      comp_version = ''detected'',
      comp_description = description f,
      purl = None,
      properties =
        [(''cdx:detection:category'', category f),
         (''cdx:detection:severity'', severity f),
         (''cdx:detection:weight'', intToString (weight f))]\<rparr>"

text \<open>
  The loop of \<open>createMLModelComponents\<close>: the generic components, \<open>modelMap\<close> keyed by
  provider and model name, the set \<open>libraryDeps\<close>, and the number of identifiers drawn.
\<close>

record cm_state =
  cs_components :: "component list"
  cs_modelMap :: "(string \<times> model_ref) list"
  cs_libraryDeps :: "string list"
  cs_drawn :: nat

definition addModelLibrary :: "modelInfo \<Rightarrow> string list \<Rightarrow> string list" where
  "addModelLibrary mi libraryDeps =
     (if provider mi = ''HuggingFace''
      then (case truthyStr (Option.bind (huggingface mi) library_name) of
              Some l \<Rightarrow> setAdd l libraryDeps
            | None \<Rightarrow> setAdd ''transformers'' libraryDeps)
      else libraryDeps)"

definition componentStep :: "(nat \<Rightarrow> string) \<Rightarrow> cm_state \<Rightarrow> finding \<Rightarrow> cm_state" where
  "componentStep gen st f =
     (case modelInfo f of
        Some mi \<Rightarrow>
          (let key = provider mi @ ''-'' @ modelName mi in
           if map_of (cs_modelMap st) key \<noteq> None then st
           else
             (let ref = ''model-'' @ gen (cs_drawn st) in
              st\<lparr>cs_modelMap :=
                   mapSet key \<lparr>mr_component = modelComponent f mi ref, bomRef = ref\<rparr> (cs_modelMap st),
                 cs_libraryDeps := addModelLibrary mi (cs_libraryDeps st),
                 cs_drawn := Suc (cs_drawn st)\<rparr>))
      | None \<Rightarrow>
          st\<lparr>cs_components :=
               cs_components st @ [genericComponent f (''component-'' @ gen (cs_drawn st))],
             cs_drawn := Suc (cs_drawn st)\<rparr>)"

text \<open>
  \<open>createLibraryComponents\<close>. \<open>knownLibraries\<close> is looked up by own keys only (a
  library name such as \<open>constructor\<close>, which JavaScript would find on the prototype of
  the object, is not considered).
\<close>

definition knownLibraries :: "(string \<times> string \<times> string \<times> string) list" where
  "knownLibraries =
     [(''transformers'', ''Transformers'',
         ''State-of-the-art Machine Learning for PyTorch, TensorFlow, and JAX'', ''pkg:pypi/transformers''),
      (''pytorch'', ''PyTorch'',
         ''Tensors and Dynamic neural networks in Python with strong GPU acceleration'', ''pkg:pypi/torch''),
      (''tensorflow'', ''TensorFlow'',
         ''An Open Source Machine Learning Framework for Everyone'', ''pkg:pypi/tensorflow''),
      (''diffusers'', ''Diffusers'',
         ''State-of-the-art diffusion models for image and audio generation'', ''pkg:pypi/diffusers''),
      (''sentence-transformers'', ''Sentence Transformers'',
         ''Compute dense vector representations for sentences, paragraphs, and images'',
         ''pkg:pypi/sentence-transformers'')]"

definition libraryStep :: "string list \<Rightarrow> finding \<Rightarrow> string list" where
  "libraryStep libraryDeps f =
     (if category f = ''dependencies''
      then (let desc = toLowerCase (description f);
                l1 = (if includesStr desc ''transformers'' then setAdd ''transformers'' libraryDeps else libraryDeps);
                l2 = (if includesStr desc ''torch'' \<or> includesStr desc ''pytorch'' then setAdd ''pytorch'' l1 else l1);
                l3 = (if includesStr desc ''tensorflow'' then setAdd ''tensorflow'' l2 else l2);
                l4 = (if includesStr desc ''diffusers'' then setAdd ''diffusers'' l3 else l3)
            in if includesStr desc ''sentence-transformers'' then setAdd ''sentence-transformers'' l4 else l4)
      else libraryDeps)"

definition libraryComponent :: "string \<Rightarrow> component list" where
  "libraryComponent lib =
     (case map_of knownLibraries lib of
        Some (n, d, p) \<Rightarrow>
          [\<lparr>ctype = ''library'', bom_ref = ''lib-'' @ lib, comp_name = n, comp_group = None,
            comp_version = [], comp_description = d, purl = Some p, properties = []\<rparr>]
      | None \<Rightarrow> [])"

definition createLibraryComponents :: "string list \<Rightarrow> finding list \<Rightarrow> component list" where
  "createLibraryComponents libraryDeps fs =
     concat (map libraryComponent (foldl libraryStep libraryDeps fs))"

record ml_components =
  components :: "component list"
  modelRefs :: "model_ref list"
  libraryRefs :: "component list"

definition createMLModelComponents :: "(nat \<Rightarrow> string) \<Rightarrow> nat \<Rightarrow> finding list \<Rightarrow> ml_components \<times> nat" where
  "createMLModelComponents gen n fs =
     (let st = foldl (componentStep gen)
                 \<lparr>cs_components = [], cs_modelMap = [], cs_libraryDeps = [], cs_drawn = n\<rparr> fs;
          models = map (\<lambda>m. mr_component (snd m)) (cs_modelMap st);
          libraryComponents = createLibraryComponents (cs_libraryDeps st) fs
      in (\<lparr>components = cs_components st @ models @ libraryComponents,
           modelRefs = map snd (cs_modelMap st),
           libraryRefs = libraryComponents\<rparr>, cs_drawn st))"

section \<open>Schema serializers (utils.js)\<close>

text \<open>
  Each serializer is modelled up to the document it writes: its components and its
  dependency entries, before the text of JSON or XML is produced. An XML attribute holds
  the escaped text of the value that is recorded here.
\<close>

record dependency =
  dep_ref :: string
  dependsOn :: "string list"

record cdx_bom =
  bom_root :: string
  bom_components :: "component list"
  bom_dependencies :: "dependency list"

definition mainRef :: "string \<Rightarrow> string \<Rightarrow> string" where
  "mainRef own rep = ''repo-'' @ own @ ''-'' @ rep"

definition categoryOf :: "component \<Rightarrow> string option" where
  "categoryOf c = map_option snd (find (\<lambda>p. fst p = ''category'') (properties c))"

text \<open>The library references of a model in the JSON document.\<close>

definition modelDepsJson :: "string list \<Rightarrow> model_ref \<Rightarrow> string list" where
  "modelDepsJson libraryRefIds model =
     (let category' = categoryOf (mr_component model) in
      if category' = Some ''text-generation'' \<or> category' = Some ''feature-extraction''
      then (if ''lib-transformers'' \<in> set libraryRefIds then [''lib-transformers''] else [])
         @ (if ''lib-pytorch'' \<in> set libraryRefIds then [''lib-pytorch''] else [])
      else if category' = Some ''text-to-image''
      then (if ''lib-diffusers'' \<in> set libraryRefIds then [''lib-diffusers''] else [])
         @ (if ''lib-pytorch'' \<in> set libraryRefIds then [''lib-pytorch''] else [])
      else [])"

definition generateCycloneDXJson ::
  "(nat \<Rightarrow> string) \<Rightarrow> nat \<Rightarrow> string \<Rightarrow> string \<Rightarrow> finding list \<Rightarrow> cdx_bom \<times> nat" where
  "generateCycloneDXJson gen n own rep selectedFindings =
     (case createMLModelComponents gen n selectedFindings of
        (r, n') \<Rightarrow>
          (let libraryRefIds = map bom_ref (libraryRefs r) in
           (\<lparr>bom_root = mainRef own rep,
             bom_components = components r,
             bom_dependencies =
               [\<lparr>dep_ref = mainRef own rep, dependsOn = map bom_ref (components r)\<rparr>]
               @ map (\<lambda>model. \<lparr>dep_ref = bomRef model, dependsOn = modelDepsJson libraryRefIds model\<rparr>)
                   (modelRefs r)
               @ map (\<lambda>lib. \<lparr>dep_ref = bom_ref lib, dependsOn = []\<rparr>) (libraryRefs r)\<rparr>, n')))"

text \<open>
  The XML serializer calls \<open>createMLModelComponents\<close> twice: once for the components and
  once more for the dependencies of the models, with new identifiers. For an image
  model it writes the reference to \<open>lib-diffusers\<close> only.
\<close>

definition modelDepsXml :: "string list \<Rightarrow> model_ref \<Rightarrow> string list" where
  "modelDepsXml libraryRefIds model =
     (let category' = categoryOf (mr_component model) in
      if category' = Some ''text-generation'' \<or> category' = Some ''feature-extraction''
      then (if ''lib-transformers'' \<in> set libraryRefIds then [''lib-transformers''] else [])
         @ (if ''lib-pytorch'' \<in> set libraryRefIds then [''lib-pytorch''] else [])
      else if category' = Some ''text-to-image''
      then (if ''lib-diffusers'' \<in> set libraryRefIds then [''lib-diffusers''] else [])
      else [])"

definition generateCycloneDXXml ::
  "(nat \<Rightarrow> string) \<Rightarrow> nat \<Rightarrow> string \<Rightarrow> string \<Rightarrow> finding list \<Rightarrow> cdx_bom \<times> nat" where
  "generateCycloneDXXml gen n own rep selectedFindings =
     (case createMLModelComponents gen n selectedFindings of
        (r1, n1) \<Rightarrow>
          (case createMLModelComponents gen n1 selectedFindings of
             (r2, n2) \<Rightarrow>
               (let libraryRefIds = map bom_ref (libraryRefs r2) in
                (\<lparr>bom_root = mainRef own rep,
                  bom_components = components r1,
                  bom_dependencies =
                    [\<lparr>dep_ref = mainRef own rep, dependsOn = map bom_ref (components r1)\<rparr>]
                    @ map (\<lambda>model. \<lparr>dep_ref = bomRef model, dependsOn = modelDepsXml libraryRefIds model\<rparr>)
                        (modelRefs r2)
                    @ map (\<lambda>lib. \<lparr>dep_ref = bom_ref lib, dependsOn = []\<rparr>) (libraryRefs r2)\<rparr>, n2))))"

text \<open>
  The extended AIBOM embeds the parsed CycloneDX JSON document as \<open>standard_bom\<close>; its
  other sections (hardware, infrastructure, governance, risk, notes) hold no component.
\<close>

record extended_aibom =
  standard_bom :: cdx_bom

definition generateExtendedAIBOM ::
  "(nat \<Rightarrow> string) \<Rightarrow> nat \<Rightarrow> string \<Rightarrow> string \<Rightarrow> finding list \<Rightarrow> extended_aibom \<times> nat" where
  "generateExtendedAIBOM gen n own rep selectedFindings =
     (case generateCycloneDXJson gen n own rep selectedFindings of
        (bom, n') \<Rightarrow> (\<lparr>standard_bom = bom\<rparr>, n'))"

text \<open>
  The SPDX serializer makes one package for each selected finding, with one relationship
  from the repository element. \<open>ns\<close> is the document namespace, which ends in a random
  identifier of its own.
\<close>

record spdx_package =
  spdxId :: string
  spdx_type :: string
  spdx_name :: string
  primaryPurpose :: "string option"

record spdx_relationship =
  rel_id :: string
  rel_from :: string
  rel_to :: "string list"

record spdx_doc =
  spdx_root :: string
  spdx_packages :: "spdx_package list"
  spdx_relationships :: "spdx_relationship list"

definition spdxPackageFor :: "(nat \<Rightarrow> string) \<Rightarrow> string \<Rightarrow> nat \<Rightarrow> finding \<Rightarrow> spdx_package" where
  "spdxPackageFor gen ns n f =
     (case modelInfo f of
        Some mi \<Rightarrow>
          \<lparr>spdxId = ns @ ''/AIPackage-'' @ gen n, spdx_type = ''ai_AIPackage'',
           spdx_name = modelName mi, primaryPurpose = None\<rparr>
      | None \<Rightarrow>
          \<lparr>spdxId = ns @ ''/Package-'' @ gen n, spdx_type = ''software_Package'',
           spdx_name = title f, primaryPurpose = Some ''library''\<rparr>)"

definition spdxRelationshipFor :: "string \<Rightarrow> finding \<Rightarrow> nat \<Rightarrow> spdx_package \<Rightarrow> spdx_relationship" where
  "spdxRelationshipFor ns f idx p =
     \<lparr>rel_id = ns @ (case modelInfo f of Some mi \<Rightarrow> ''/Relationship-'' | None \<Rightarrow> ''/Relationship-lib-'')
                 @ natToString idx,
      rel_from = ns @ ''/Repository'',
      rel_to = [spdxId p]\<rparr>"

definition spdxStep ::
  "(nat \<Rightarrow> string) \<Rightarrow> string \<Rightarrow> spdx_package list \<times> spdx_relationship list \<times> nat \<Rightarrow> finding \<times> nat
     \<Rightarrow> spdx_package list \<times> spdx_relationship list \<times> nat" where
  "spdxStep gen ns acc fi =
     (case (acc, fi) of ((pkgs, rels, n), (f, idx)) \<Rightarrow>
        (let p = spdxPackageFor gen ns n f in
         (pkgs @ [p], rels @ [spdxRelationshipFor ns f idx p], Suc n)))"

definition generateSPDX ::
  "(nat \<Rightarrow> string) \<Rightarrow> nat \<Rightarrow> string \<Rightarrow> finding list \<Rightarrow> spdx_doc \<times> nat" where
  "generateSPDX gen n ns selectedFindings =
     (case foldl (spdxStep gen ns) ([], [], n) (zip selectedFindings [0 ..< length selectedFindings]) of
        (pkgs, rels, n') \<Rightarrow>
          (\<lparr>spdx_root = ns @ ''/Repository'', spdx_packages = pkgs, spdx_relationships = rels\<rparr>, n'))"

text \<open>The edges a list of dependency entries stands for, and those of the SPDX document.\<close>

definition edgeList :: "dependency list \<Rightarrow> (string \<times> string) list" where
  "edgeList deps = concat (map (\<lambda>d. map (\<lambda>x. (dep_ref d, x)) (dependsOn d)) deps)"

definition spdxEdgeList :: "spdx_relationship list \<Rightarrow> (string \<times> string) list" where
  "spdxEdgeList rels = concat (map (\<lambda>r. map (\<lambda>x. (rel_from r, x)) (rel_to r)) rels)"

section \<open>Notions used to state the reconciler's properties\<close>

text \<open>
  A finding that the first pass stores: category \<open>dependencies\<close> with a
  \<open>dependencyInfo\<close>; its key in \<open>dependencyMap\<close>; and the last such finding of the input
  with a given key.
\<close>

definition isDep :: "finding \<Rightarrow> bool" where
  "isDep f = (category f = ''dependencies'' \<and> dependencyInfo f \<noteq> None)"

definition pkgKey :: "finding \<Rightarrow> string" where
  "pkgKey f = (case dependencyInfo f of Some di \<Rightarrow> toLowerCase (dep_name di) | None \<Rightarrow> [])"

definition lastDep :: "finding list \<Rightarrow> string \<Rightarrow> finding option" where
  "lastDep fs k = (case filter (\<lambda>f. isDep f \<and> pkgKey f = k) fs of [] \<Rightarrow> None | l \<Rightarrow> Some (last l))"

text \<open>
  The test the second pass applies to a finding and a package key (the first
  \<open>includes('openai-compatible')\<close> of the source is subsumed by the second test), and
  the code findings of the input matched with a key, in input order.
\<close>

definition matchesDep :: "finding \<Rightarrow> string \<Rightarrow> bool" where
  "matchesDep f k =
     (category f = ''code'' \<and> title f \<noteq> []
      \<and> \<not> includesStr (toLowerCase (title f)) ''compatible''
      \<and> titleMatches (toLowerCase (title f)) k)"

definition codeFindingsFor :: "finding list \<Rightarrow> string \<Rightarrow> finding list" where
  "codeFindingsFor fs k = filter (\<lambda>f. matchesDep f k) fs"

text \<open>
  A code finding that matches no key of \<open>dependencyMap\<close>; the ids the third pass adds to
  \<open>processedCode\<close>; and the test of the last pass.
\<close>

definition unmatchedCode :: "finding list \<Rightarrow> finding \<Rightarrow> bool" where
  "unmatchedCode fs f =
     (category f = ''code'' \<and> list_all (\<lambda>e. \<not> matchesDep f (fst e)) (collectDependencies fs))"

definition processedIds :: "finding list \<Rightarrow> string set" where
  "processedIds fs =
     (\<Union>e \<in> set (collectDependencies fs). set (map fid (codeFindingsFor fs (fst e))))"

definition keeps :: "string set \<Rightarrow> finding \<Rightarrow> bool" where
  "keeps pc f = ((category f = ''code'' \<and> fid f \<notin> pc)
                 \<or> (category f \<noteq> ''dependencies'' \<and> category f \<noteq> ''code''))"

text \<open>
  What the third pass pushes for an entry of \<open>dependencyMap\<close>: the unified finding when
  code findings are matched with the key, the dependency finding itself otherwise.
\<close>

definition mergeOne :: "(string \<Rightarrow> finding list) \<Rightarrow> string \<times> finding \<Rightarrow> finding" where
  "mergeOne cm e = (case e of (k, d) \<Rightarrow>
      (case dependencyInfo d of
         Some di \<Rightarrow> if cm k \<noteq> [] then mergedFinding d di (cm k) else d
       | None \<Rightarrow> d))"


section \<open>Notions used to state the properties of the BOM graph\<close>

text \<open>
  The height of a reference in the graph, read from its prefix: the repository is above
  the models, and the models are above everything else.
\<close>

definition height :: "string \<Rightarrow> nat" where
  "height s = (if startsWith s ''repo-'' then 2 else if startsWith s ''model-'' then 1 else 0)"

text \<open>
  The loop of \<open>createMLModelComponents\<close>: its initial state, its final state, the
  references it has given out, and what holds of every state it goes through (the
  references are made of identifiers already drawn, a model component carries the
  reference of its map entry, and \<open>libraryDeps\<close> has no duplicates).
\<close>

definition initialCm :: "nat \<Rightarrow> cm_state" where
  "initialCm n = \<lparr>cs_components = [], cs_modelMap = [], cs_libraryDeps = [], cs_drawn = n\<rparr>"

definition finalCm :: "(nat \<Rightarrow> string) \<Rightarrow> nat \<Rightarrow> finding list \<Rightarrow> cm_state" where
  "finalCm gen n fs = foldl (componentStep gen) (initialCm n) fs"

definition cmRefs :: "cm_state \<Rightarrow> string list" where
  "cmRefs st = map bom_ref (cs_components st) @ map (\<lambda>e. bomRef (snd e)) (cs_modelMap st)"

definition cmInv :: "(nat \<Rightarrow> string) \<Rightarrow> nat \<Rightarrow> cm_state \<Rightarrow> bool" where
  "cmInv gen n st =
     (n \<le> cs_drawn st
      \<and> (\<forall>c \<in> set (cs_components st).
            (\<exists>i. n \<le> i \<and> i < cs_drawn st \<and> bom_ref c = ''component-'' @ gen i)
            \<and> ctype c \<noteq> ''machine-learning-model'')
      \<and> (\<forall>e \<in> set (cs_modelMap st).
            (\<exists>i. n \<le> i \<and> i < cs_drawn st \<and> bomRef (snd e) = ''model-'' @ gen i)
            \<and> bom_ref (mr_component (snd e)) = bomRef (snd e)
            \<and> ctype (mr_component (snd e)) = ''machine-learning-model'')
      \<and> distinct (cs_libraryDeps st))"

text \<open>The three groups of dependency entries of a CycloneDX document.\<close>

definition cdxDeps ::
  "string \<Rightarrow> component list \<Rightarrow> (model_ref \<Rightarrow> string list) \<Rightarrow> model_ref list \<Rightarrow> component list \<Rightarrow> dependency list" where
  "cdxDeps root comps md ms libs =
     [\<lparr>dep_ref = root, dependsOn = map bom_ref comps\<rparr>]
     @ map (\<lambda>model. \<lparr>dep_ref = bomRef model, dependsOn = md model\<rparr>) ms
     @ map (\<lambda>lib. \<lparr>dep_ref = bom_ref lib, dependsOn = []\<rparr>) libs"

text \<open>
  What holds of the lists the SPDX loop builds: one relationship from the repository
  element for each package, and package identifiers made of identifiers already drawn.
\<close>

definition spdxInv :: "(nat \<Rightarrow> string) \<Rightarrow> string \<Rightarrow> nat \<Rightarrow> spdx_package list \<times> spdx_relationship list \<times> nat \<Rightarrow> bool" where
  "spdxInv gen ns n acc =
     (case acc of (pkgs, rels, k) \<Rightarrow>
        n \<le> k
        \<and> spdxEdgeList rels = map (\<lambda>p. (ns @ ''/Repository'', spdxId p)) pkgs
        \<and> (\<forall>p \<in> set pkgs. \<exists>i. n \<le> i \<and> i < k
              \<and> (spdxId p = ns @ ''/AIPackage-'' @ gen i \<or> spdxId p = ns @ ''/Package-'' @ gen i)))"

section \<open>Example inputs\<close>

text \<open>
  A dependency Finding as the dependency detection unit creates it from a manifest line,
  and a parsed documentation with one limitations section.
\<close>

definition exampleDep :: finding where
  "exampleDep =
     \<lparr>fid = ''dep-python-openai'', title = ''Dependency: openai'', category = ''dependencies'',
      severity = ''high'', weight = 5,
      description = ''LLM-related dependency: openai (version: 1.2.0)'',
      evidence = [\<lparr>ev_file = ''requirements.txt'', ev_line = Some 3, ev_url = None,
                   ev_snippet = Some ''openai==1.2.0''\<rparr>],
      dependencyInfo = Some \<lparr>dep_name = ''openai'', dep_version = ''1.2.0'',
                             ecosystem = ''python'', dep_source = ''manual-parsing''\<rparr>,
      modelInfo = None, riskInfo = None, codeUsage = None\<rparr>"

definition exampleDocs :: parsed_docs where
  "exampleDocs =
     \<lparr>limitations = [\<lparr>doc_file = ''README.md'', doc_text = ''Not for medical use''\<rparr>],
      biasInformation = [], ethicalConsiderations = []\<rparr>"

text \<open>
  The same package found in a second manifest; the package written with capitals in a
  second manifest; the code finding of SDK usage at \<open>app.py:10\<close>; and the finding of
  an OpenAI-compatible endpoint.
\<close>

definition exampleDepToml :: finding where
  "exampleDepToml =
     \<lparr>fid = ''dep-python-openai'', title = ''Dependency: openai'', category = ''dependencies'',
      severity = ''high'', weight = 5,
      description = ''LLM-related dependency: openai (version: unspecified)'',
      evidence = [\<lparr>ev_file = ''pyproject.toml'', ev_line = Some 12, ev_url = None,
                   ev_snippet = Some ''openai''\<rparr>],
      dependencyInfo = Some \<lparr>dep_name = ''openai'', dep_version = ''unspecified'',
                             ecosystem = ''python'', dep_source = ''manual-parsing''\<rparr>,
      modelInfo = None, riskInfo = None, codeUsage = None\<rparr>"

definition exampleDepCaps :: finding where
  "exampleDepCaps =
     \<lparr>fid = ''dep-python-OpenAI'', title = ''Dependency: OpenAI'', category = ''dependencies'',
      severity = ''high'', weight = 5,
      description = ''LLM-related dependency: OpenAI (version: unspecified)'',
      evidence = [\<lparr>ev_file = ''pyproject.toml'', ev_line = Some 12, ev_url = None,
                   ev_snippet = Some ''OpenAI''\<rparr>],
      dependencyInfo = Some \<lparr>dep_name = ''OpenAI'', dep_version = ''unspecified'',
                             ecosystem = ''python'', dep_source = ''manual-parsing''\<rparr>,
      modelInfo = None, riskInfo = None, codeUsage = None\<rparr>"

definition exampleCode :: finding where
  "exampleCode =
     \<lparr>fid = ''code-sdk-OpenAI-python'', title = ''OpenAI SDK Usage Detected'', category = ''code'',
      severity = ''high'', weight = 5,
      description = ''Found OpenAI SDK usage in 1 file(s)'',
      evidence = [\<lparr>ev_file = ''app.py'', ev_line = Some 10, ev_url = None,
                   ev_snippet = Some ''from openai import OpenAI''\<rparr>],
      dependencyInfo = None, modelInfo = None, riskInfo = None, codeUsage = None\<rparr>"

definition exampleCompat :: finding where
  "exampleCompat =
     \<lparr>fid = ''code-api-api-OpenAI-compatible'', title = ''OpenAI-compatible API Endpoint Detected'',
      category = ''code'', severity = ''medium'', weight = 3,
      description = ''Found API calls to OpenAI-compatible in 1 file(s)'',
      evidence = [\<lparr>ev_file = ''client.py'', ev_line = None, ev_url = None,
                   ev_snippet = Some ''/v1/chat/completions''\<rparr>],
      dependencyInfo = None, modelInfo = None, riskInfo = None, codeUsage = None\<rparr>"

text \<open>
  A world for the search transport: the queries sent so far, and the answers the host
  will give to the next requests, in order (no answer left is a transient failure).
\<close>

record api_world =
  calls :: "string list"
  script :: "search_response list"

definition scriptedSearch :: "api_world \<Rightarrow> string \<Rightarrow> search_response \<times> api_world" where
  "scriptedSearch w q =
     (case script w of
        [] \<Rightarrow> (NoResult, w\<lparr>calls := calls w @ [q]\<rparr>)
      | r # rs \<Rightarrow> (r, w\<lparr>calls := calls w @ [q], script := rs\<rparr>))"

text \<open>
  Units that find nothing, a unit that throws, a unit that returns an array with one
  given Finding, a Finding as the configuration unit creates it, a dependency unit that
  read one manifest without an SBOM, and a dependency unit that got an SBOM with the
  packages \<open>anthropic\<close> and \<open>cohere\<close>.
\<close>

definition quietUnit :: "'w unit_fn" where
  "quietUnit inp w = (Inr (Arr []), w)"

definition throwingUnit :: "'w unit_fn" where
  "throwingUnit inp w = (Inl (Thrown ''TypeError''), w)"

definition findingUnit :: "finding \<Rightarrow> 'w unit_fn" where
  "findingUnit f inp w = (Inr (Arr [f]), w)"

definition exampleConfig :: finding where
  "exampleConfig =
     \<lparr>fid = ''config-model-OpenAI-gpt-4'', title = ''OpenAI Model in Configuration: gpt-4'',
      category = ''config'', severity = ''medium'', weight = 4,
      description = ''Found OpenAI model '' @ [CHR 0x22] @ ''gpt-4'' @ [CHR 0x22]
         @ '' configured in 1 file(s)'',
      evidence = [\<lparr>ev_file = ''config.yml'', ev_line = Some 3, ev_url = None,
                   ev_snippet = Some ''model: gpt-4''\<rparr>],
      dependencyInfo = None,
      modelInfo = Some \<lparr>provider = ''OpenAI'', modelName = ''gpt-4'', modelType = None,
                        huggingface = None, detectionSource = None\<rparr>,
      riskInfo = None, codeUsage = None\<rparr>"

definition manifestUnit :: "'w unit_fn" where
  "manifestUnit inp w =
     (Inr (Obj \<lparr>r_findings = [exampleDep], r_aiFilesFound = None, r_sbomAvailable = Some False,
                r_dependencies = Some [], r_parsedDocs = None,
                r_paused = False, r_resumeState = None\<rparr>), w)"

definition exampleSbomDeps :: "sbom_dep list" where
  "exampleSbomDeps =
     [\<lparr>sbom_name = ''anthropic'', sbom_version = ''0.30.0'', sbom_ecosystem = ''python''\<rparr>,
      \<lparr>sbom_name = ''cohere'', sbom_version = ''5.5.0'', sbom_ecosystem = ''python''\<rparr>]"

definition sbomUnit :: "'w unit_fn" where
  "sbomUnit inp w =
     (Inr (Obj \<lparr>r_findings = [], r_aiFilesFound = None, r_sbomAvailable = Some True,
                r_dependencies = Some exampleSbomDeps, r_parsedDocs = None,
                r_paused = False, r_resumeState = None\<rparr>), w)"

definition quietExternals :: "'w externals" where
  "quietExternals =
     \<lparr>fn_dependenciesDetector = quietUnit, fn_codeDetector = quietUnit,
      fn_metadataDetector = quietUnit, fn_modelsIdentifierDetector = quietUnit,
      fn_configDetector = quietUnit, fn_ciDetector = quietUnit, fn_modelsDetector = quietUnit,
      fn_promptsDetector = quietUnit, fn_hardwareDetector = quietUnit,
      fn_infrastructureDetector = quietUnit, fn_documentationParser = quietUnit,
      fn_riskDetector = quietUnit, now = (\<lambda>w. 0), sleep = (\<lambda>ms w. w)\<rparr>"

definition searchExternals :: "api_world externals" where
  "searchExternals =
     quietExternals\<lparr>fn_dependenciesDetector := sbomUnit,
                    fn_codeDetector := codeDetector scriptedSearch (\<lambda>w. ([], w))\<rparr>"

definition failingExternals :: "api_world externals" where
  "failingExternals =
     quietExternals\<lparr>fn_dependenciesDetector := manifestUnit, fn_codeDetector := throwingUnit,
                    fn_metadataDetector := throwingUnit,
                    fn_configDetector := findingUnit exampleConfig\<rparr>"

definition exampleInput :: detector_input where
  "exampleInput =
     \<lparr>owner = ''acme'', repo = ''bot'', token = Some ''ghp_token'', languages = [''Python''],
      in_aiFilesFound = None, in_allFindings = None, in_sbomAvailable = None,
      in_detectedDependencies = None, in_parsedDocs = None, in_resumeState = None\<rparr>"

text \<open>
  The host answers the first request with no quota left (the unit pauses after one
  executed query) and every later request with quota left.
\<close>

definition okLimit :: rate_limit where
  "okLimit = \<lparr>remaining = 9, limit = 10, resetTime = Some 60000\<rparr>"

definition exhausted :: rate_limit where
  "exhausted = \<lparr>remaining = 0, limit = 10, resetTime = Some 60000\<rparr>"

definition pausedWorld :: api_world where
  "pausedWorld = \<lparr>calls = [], script = Results [] exhausted # replicate 12 (Results [] okLimit)\<rparr>"

definition pausedPipeline :: pipeline where
  "pausedPipeline =
     initialPipeline\<lparr>codeResumeState := Some \<lparr>sdkFindings = [], lastSearchIndex = 1,
                                             lastRateLimit = exhausted, rs_findings = []\<rparr>,
                     codeDetectorPaused := True\<rparr>"

text \<open>
  Findings of an open text-generation model and of an image model with its registry
  data, a dependency Finding for \<open>torch\<close>, and the namespace of an SPDX document.
\<close>

definition exampleModel :: finding where
  "exampleModel =
     \<lparr>fid = ''model-HuggingFace-meta-llama/Llama-3-8B-Instruct'',
      title = ''AI Model Identified: meta-llama/Llama-3-8B-Instruct'', category = ''models'',
      severity = ''high'', weight = 5,
      description = ''Uses HuggingFace model meta-llama/Llama-3-8B-Instruct'',
      evidence = [\<lparr>ev_file = ''serve.py'', ev_line = Some 4, ev_url = None, ev_snippet = None\<rparr>],
      dependencyInfo = None,
      modelInfo = Some \<lparr>provider = ''HuggingFace'', modelName = ''meta-llama/Llama-3-8B-Instruct'',
                        modelType = Some ''text-generation'', huggingface = None,
                        detectionSource = None\<rparr>,
      riskInfo = None, codeUsage = None\<rparr>"

definition exampleImageModel :: finding where
  "exampleImageModel =
     \<lparr>fid = ''model-HuggingFace-stabilityai/stable-diffusion-2'',
      title = ''AI Model Identified: stabilityai/stable-diffusion-2'', category = ''models'',
      severity = ''high'', weight = 5,
      description = ''Uses HuggingFace model stabilityai/stable-diffusion-2'',
      evidence = [\<lparr>ev_file = ''paint.py'', ev_line = Some 9, ev_url = None, ev_snippet = None\<rparr>],
      dependencyInfo = None,
      modelInfo = Some \<lparr>provider = ''HuggingFace'', modelName = ''stabilityai/stable-diffusion-2'',
                        modelType = Some ''text-to-image'',
                        huggingface = Some \<lparr>hf_author = Some ''stabilityai'',
                                           pipeline_tag = Some ''text-to-image'',
                                           library_name = Some ''diffusers''\<rparr>,
                        detectionSource = None\<rparr>,
      riskInfo = None, codeUsage = None\<rparr>"

definition exampleTorchDep :: finding where
  "exampleTorchDep =
     \<lparr>fid = ''dep-python-torch'', title = ''Dependency: torch'', category = ''dependencies'',
      severity = ''high'', weight = 5,
      description = ''LLM-related dependency: torch (version: 2.1.0)'',
      evidence = [\<lparr>ev_file = ''requirements.txt'', ev_line = Some 1, ev_url = None,
                   ev_snippet = Some ''torch==2.1.0''\<rparr>],
      dependencyInfo = Some \<lparr>dep_name = ''torch'', dep_version = ''2.1.0'',
                             ecosystem = ''python'', dep_source = ''manual-parsing''\<rparr>,
      modelInfo = None, riskInfo = None, codeUsage = None\<rparr>"

definition exampleNs :: string where
  "exampleNs = ''https://github.com/acme/bot/spdx/k3f9''"

section \<open>Score invariant\<close>

lemma foldl_weight_sum:
  "foldl (\<lambda>sum finding. sum + weight finding) a fs = a + sum_list (map weight fs)"
  by (induction fs arbitrary: a) simp_all

lemma riskDetector_weight_sum: "sum_list (map weight (riskDetector docs)) = 0"
  by (simp add: riskDetector_def riskFinding_def)

text \<open>
  Claim C5. The aggregate confidence score of any finding list is the sum of the
  findings' weights; every Finding the risk-assessment unit creates has weight 0; hence
  adding the unit's findings to a finding list, or leaving them out, gives the same score.
\<close>

theorem score_is_weight_sum_and_risk_findings_weigh_nothing:
  "calculateScore fs = sum_list (map weight fs)
   \<and> list_all (\<lambda>f. weight f = 0) (riskDetector docs)
   \<and> calculateScore (fs @ riskDetector docs) = calculateScore fs
   \<and> calculateScore (riskDetector docs @ fs) = calculateScore fs"
proof -
  have z: "sum_list (map weight (riskDetector docs)) = 0"
    by (rule riskDetector_weight_sum)
  have a: "list_all (\<lambda>f. weight f = 0) (riskDetector docs)"
    by (simp add: riskDetector_def riskFinding_def)
  show ?thesis
    using z a by (simp add: calculateScore_def foldl_weight_sum)
qed

theorem score_is_weight_sum_and_risk_findings_weigh_nothing_witness:
  "calculateScore [exampleDep] = sum_list (map weight [exampleDep])
   \<and> list_all (\<lambda>f. weight f = 0) (riskDetector exampleDocs)
   \<and> calculateScore ([exampleDep] @ riskDetector exampleDocs) = calculateScore [exampleDep]
   \<and> calculateScore (riskDetector exampleDocs @ [exampleDep]) = calculateScore [exampleDep]"
  by (rule score_is_weight_sum_and_risk_findings_weigh_nothing)

section \<open>Validation filter\<close>

text \<open>
  Claim C6. For the HuggingFace generic capture the validation filter rejects
  \<open>application/json\<close>, \<open>next/head\<close> and \<open>text-white/80\<close>, and accepts
  \<open>meta-llama/Llama-3-8B-Instruct\<close>.
\<close>

theorem isValidModelName_spec_candidates:
  "\<not> isValidModelName ''application/json'' ''HuggingFace''
   \<and> \<not> isValidModelName ''next/head'' ''HuggingFace''
   \<and> \<not> isValidModelName ''text-white/80'' ''HuggingFace''
   \<and> isValidModelName ''meta-llama/Llama-3-8B-Instruct'' ''HuggingFace''"
  by code_simp

section \<open>The reconciler as one expression\<close>

lemma startsWith_iff: "startsWith s p \<longleftrightarrow> (\<exists>suf. s = p @ suf)"
proof
  assume "startsWith s p"
  then have "s = p @ drop (length p) s"
    by (metis append_take_drop_id startsWith_def)
  then show "\<exists>suf. s = p @ suf" ..
next
  assume "\<exists>suf. s = p @ suf"
  then show "startsWith s p" by (auto simp: startsWith_def)
qed

lemma includesStr_iff: "includesStr s t \<longleftrightarrow> (\<exists>pre suf. s = pre @ t @ suf)"
proof (induction s)
  case Nil
  then show ?case by auto
next
  case (Cons c s)
  show ?case
  proof
    assume "includesStr (c # s) t"
    then consider "startsWith (c # s) t" | "includesStr s t" by auto
    then show "\<exists>pre suf. c # s = pre @ t @ suf"
    proof cases
      case 1
      then obtain suf where "c # s = t @ suf" by (auto simp: startsWith_iff)
      then have "c # s = [] @ t @ suf" by simp
      then show ?thesis by blast
    next
      case 2
      with Cons obtain pre suf where "s = pre @ t @ suf" by auto
      then have "c # s = (c # pre) @ t @ suf" by simp
      then show ?thesis by blast
    qed
  next
    assume "\<exists>pre suf. c # s = pre @ t @ suf"
    then obtain pre suf where ps: "c # s = pre @ t @ suf" by auto
    show "includesStr (c # s) t"
    proof (cases pre)
      case Nil
      with ps have "startsWith (c # s) t" by (auto simp: startsWith_iff)
      then show ?thesis by simp
    next
      case (Cons a pre')
      with ps have "s = pre' @ t @ suf" by simp
      with Cons.IH have "includesStr s t" by blast
      then show ?thesis by simp
    qed
  qed
qed

lemma includes_compat: "includesStr s ''openai-compatible'' \<Longrightarrow> includesStr s ''compatible''"
proof -
  assume "includesStr s ''openai-compatible''"
  then obtain pre suf where "s = pre @ ''openai-compatible'' @ suf"
    by (auto simp: includesStr_iff)
  then have "s = (pre @ ''openai-'') @ ''compatible'' @ suf" by simp
  then show ?thesis unfolding includesStr_iff by blast
qed

lemma map_of_mapSet: "map_of (mapSet k v m) = (map_of m)(k \<mapsto> v)"
  by (induction m) (auto simp: fun_eq_iff)

lemma keys_mapSet: "fst ` set (mapSet k v m) = insert k (fst ` set m)"
proof (induction m)
  case Nil
  then show ?case by simp
next
  case (Cons a m)
  obtain k' v' where a: "a = (k', v')" by (cases a)
  show ?case
  proof (cases "k' = k")
    case True
    then show ?thesis by (simp add: a)
  next
    case False
    then show ?thesis using Cons.IH by (simp add: a insert_commute)
  qed
qed

lemma distinct_mapSet: "distinct (map fst m) \<Longrightarrow> distinct (map fst (mapSet k v m))"
proof (induction m)
  case Nil
  then show ?case by simp
next
  case (Cons a m)
  have "fst ` set (mapSet k v m) = insert k (fst ` set m)" by (rule keys_mapSet)
  with Cons show ?case by (cases a) auto
qed

lemma length_mapSet: "length (mapSet k v m) \<le> Suc (length m)"
  by (induction m) auto

lemma collect_snoc: "collectDependencies (fs @ [f]) = collectStep (collectDependencies fs) f"
  by (simp add: collectDependencies_def)

lemma collectStep_isDep:
  "collectStep m f = (if isDep f then mapSet (pkgKey f) f m else m)"
  by (auto simp: collectStep_def isDep_def pkgKey_def split: option.splits)

lemma distinct_collect: "distinct (map fst (collectDependencies fs))"
proof (induction fs rule: rev_induct)
  case Nil
  then show ?case by (simp add: collectDependencies_def)
next
  case (snoc f fs)
  then show ?case by (simp add: collect_snoc collectStep_isDep distinct_mapSet)
qed

lemma map_of_collect: "map_of (collectDependencies fs) k = lastDep fs k"
proof (induction fs rule: rev_induct)
  case Nil
  then show ?case by (simp add: collectDependencies_def lastDep_def)
next
  case (snoc f fs)
  then show ?case
    by (auto simp: collect_snoc collectStep_isDep map_of_mapSet lastDep_def split: list.splits)
qed

lemma length_collect: "length (collectDependencies fs) \<le> length (filter isDep fs)"
proof (induction fs rule: rev_induct)
  case Nil
  then show ?case by (simp add: collectDependencies_def)
next
  case (snoc f fs)
  have "length (mapSet (pkgKey f) f (collectDependencies fs)) \<le> Suc (length (collectDependencies fs))"
    by (rule length_mapSet)
  with snoc show ?case by (simp add: collect_snoc collectStep_isDep)
qed

lemma matchDeps_char:
  "distinct (map fst dm) \<Longrightarrow>
   matchDeps t f cm dm = (\<lambda>k. if k \<in> fst ` set dm \<and> titleMatches t k then cm k @ [f] else cm k)"
proof (induction dm arbitrary: cm)
  case Nil
  then show ?case by (simp add: matchDeps_def)
next
  case (Cons e dm)
  obtain k d where e: "e = (k, d)" by (cases e)
  from Cons.prems e have kd: "k \<notin> fst ` set dm" and dd: "distinct (map fst dm)" by auto
  have step: "matchDeps t f cm (e # dm) =
      matchDeps t f (if titleMatches t k then cm(k := cm k @ [f]) else cm) dm"
    by (simp add: matchDeps_def e)
  show ?case
    unfolding step Cons.IH[OF dd] using kd by (auto simp: e fun_eq_iff)
qed

lemma matchStep_char:
  "distinct (map fst dm) \<Longrightarrow>
   matchStep dm cm f = (\<lambda>k. if k \<in> fst ` set dm \<and> matchesDep f k then cm k @ [f] else cm k)"
  using includes_compat[of "toLowerCase (title f)"]
  by (auto simp: matchStep_def matchDeps_char matchesDep_def Let_def fun_eq_iff)

lemma matchCode_char:
  assumes "distinct (map fst dm)"
  shows "matchCode dm fs k = (if k \<in> fst ` set dm then filter (\<lambda>f. matchesDep f k) fs else [])"
proof (induction fs rule: rev_induct)
  case Nil
  then show ?case by (simp add: matchCode_def)
next
  case (snoc f fs)
  have "matchCode dm (fs @ [f]) = matchStep dm (matchCode dm fs) f"
    by (simp add: matchCode_def)
  then show ?case using snoc by (simp add: matchStep_char[OF assms])
qed

lemma mergeFold_char:
  "\<forall>(k, d) \<in> set dm. dependencyInfo d \<noteq> None \<Longrightarrow>
   foldl (mergeStep cm) (merged, pc) dm =
     (merged @ map (mergeOne cm) dm, pc \<union> (\<Union>e \<in> set dm. set (map fid (cm (fst e)))))"
proof (induction dm arbitrary: merged pc)
  case Nil
  then show ?case by simp
next
  case (Cons e dm)
  obtain k d where e: "e = (k, d)" by (cases e)
  from Cons.prems e obtain di where di: "dependencyInfo d = Some di" by auto
  from Cons.prems have rest: "\<forall>(k, d) \<in> set dm. dependencyInfo d \<noteq> None" by simp
  show ?case
  proof (cases "cm k = []")
    case True
    then have "mergeStep cm (merged, pc) e = (merged @ [d], pc)"
      by (simp add: mergeStep_def e Let_def)
    then show ?thesis using True Cons.IH[OF rest] by (simp add: mergeOne_def e di)
  next
    case False
    then have "mergeStep cm (merged, pc) e =
        (merged @ [mergedFinding d di (cm k)], pc \<union> set (map fid (cm k)))"
      by (simp add: mergeStep_def e di Let_def)
    then show ?thesis using False Cons.IH[OF rest] by (auto simp: mergeOne_def e di)
  qed
qed

lemma keepFold_char: "foldl (keepStep pc) merged fs = merged @ filter (keeps pc) fs"
  by (induction fs arbitrary: merged) (auto simp: keepStep_def keeps_def)

lemma collect_entry:
  assumes "(k, d) \<in> set (collectDependencies fs)"
  shows "lastDep fs k = Some d"
proof -
  have "map_of (collectDependencies fs) k = Some d"
    using assms distinct_collect by simp
  then show ?thesis by (simp add: map_of_collect)
qed

lemma lastDep_props:
  assumes "lastDep fs k = Some d"
  shows "isDep d \<and> pkgKey d = k \<and> d \<in> set fs"
proof -
  let ?l = "filter (\<lambda>f. isDep f \<and> pkgKey f = k) fs"
  from assms have ne: "?l \<noteq> []" and d: "d = last ?l"
    by (auto simp: lastDep_def split: list.splits)
  from ne have "last ?l \<in> set ?l" by (rule last_in_set)
  with d show ?thesis by auto
qed

lemma lastDep_key_mem:
  "lastDep fs k = Some d \<Longrightarrow> (k, d) \<in> set (collectDependencies fs)"
  by (metis map_of_collect map_of_SomeD)

lemma map_mergeOne_cong:
  "\<forall>e \<in> set dm. cm (fst e) = cm' (fst e) \<Longrightarrow> map (mergeOne cm) dm = map (mergeOne cm') dm"
  by (auto simp: mergeOne_def split: option.splits)

lemma merge_char:
  "mergeDependencyAndCodeFindings fs =
     map (mergeOne (codeFindingsFor fs)) (collectDependencies fs) @ filter (keeps (processedIds fs)) fs"
proof -
  let ?dm = "collectDependencies fs"
  let ?cm = "matchCode ?dm fs"
  have info: "\<forall>(k, d) \<in> set ?dm. dependencyInfo d \<noteq> None"
    using collect_entry lastDep_props by (fastforce simp: isDep_def)
  have cm: "\<forall>e \<in> set ?dm. ?cm (fst e) = codeFindingsFor fs (fst e)"
    by (auto simp: matchCode_char[OF distinct_collect] codeFindingsFor_def)
  have m: "map (mergeOne ?cm) ?dm = map (mergeOne (codeFindingsFor fs)) ?dm"
    by (rule map_mergeOne_cong[OF cm])
  have p: "(\<Union>e \<in> set ?dm. set (map fid (?cm (fst e)))) = processedIds fs"
    unfolding processedIds_def using cm by auto
  have "foldl (mergeStep ?cm) ([], {}) ?dm = (map (mergeOne (codeFindingsFor fs)) ?dm, processedIds fs)"
    using mergeFold_char[OF info, of ?cm "[]" "{}"] m p by simp
  then show ?thesis
    by (simp add: mergeDependencyAndCodeFindings_def Let_def keepFold_char)
qed

lemma keeps_not_dep: "keeps pc f \<Longrightarrow> category f \<noteq> ''dependencies''"
  by (auto simp: keeps_def)

lemma filter_key:
  "distinct (map fst dm) \<Longrightarrow>
   filter (\<lambda>e. fst e = k) dm = (case map_of dm k of None \<Rightarrow> [] | Some d \<Rightarrow> [(k, d)])"
proof (induction dm)
  case Nil
  then show ?case by simp
next
  case (Cons e dm)
  obtain k' d' where e: "e = (k', d')" by (cases e)
  show ?case
  proof (cases "k' = k")
    case True
    with Cons.prems e have "k \<notin> fst ` set dm" by auto
    then have "filter (\<lambda>e. fst e = k) dm = []" by (auto simp: filter_empty_conv)
    with True show ?thesis by (simp add: e)
  next
    case False
    with Cons show ?thesis by (simp add: e)
  qed
qed

lemma mergeOne_fields:
  assumes "isDep d"
  shows "category (mergeOne cm (k, d)) = ''dependencies''"
    and "dependencyInfo (mergeOne cm (k, d)) = dependencyInfo d"
    and "pkgKey (mergeOne cm (k, d)) = pkgKey d"
    and "fid (mergeOne cm (k, d)) = fid d"
    and "weight (mergeOne cm (k, d)) = weight d"
  using assms by (auto simp: mergeOne_def isDep_def mergedFinding_def pkgKey_def split: option.splits)

lemma disjoint_filters:
  "\<forall>x \<in> set xs. \<not> (P x \<and> Q x) \<Longrightarrow> length (filter P xs) + length (filter Q xs) \<le> length xs"
  by (induction xs) auto

lemma isDep_not_keeps: "\<not> (isDep f \<and> keeps pc f)"
  by (auto simp: isDep_def keeps_def)

lemma merge_length: "length (mergeDependencyAndCodeFindings fs) \<le> length fs"
proof -
  have "length (filter isDep fs) + length (filter (keeps (processedIds fs)) fs) \<le> length fs"
    by (rule disjoint_filters) (simp add: isDep_not_keeps)
  moreover have "length (collectDependencies fs) \<le> length (filter isDep fs)"
    by (rule length_collect)
  ultimately show ?thesis by (simp add: merge_char)
qed

lemma keeps_in_output: "f \<in> set fs \<Longrightarrow> keeps (processedIds fs) f \<Longrightarrow> f \<in> set (mergeDependencyAndCodeFindings fs)"
  by (simp add: merge_char)

lemma unmatched_dep_in_output:
  assumes "lastDep fs k = Some d" and "codeFindingsFor fs k = []"
  shows "d \<in> set (mergeDependencyAndCodeFindings fs)"
proof -
  have "(k, d) \<in> set (collectDependencies fs)" using assms(1) by (rule lastDep_key_mem)
  then have "mergeOne (codeFindingsFor fs) (k, d) \<in> set (mergeDependencyAndCodeFindings fs)"
    by (simp add: merge_char)
  moreover have "mergeOne (codeFindingsFor fs) (k, d) = d"
    using assms(2) by (simp add: mergeOne_def split: option.splits)
  ultimately show ?thesis by simp
qed

lemma processedIds_unmatched:
  assumes dist: "distinct (map fid (filter (\<lambda>f. category f = ''code'') fs))"
    and f: "f \<in> set fs" and u: "unmatchedCode fs f"
  shows "fid f \<notin> processedIds fs"
proof
  assume "fid f \<in> processedIds fs"
  then obtain e c where e: "e \<in> set (collectDependencies fs)"
      and c: "c \<in> set (codeFindingsFor fs (fst e))" and id: "fid c = fid f"
    by (auto simp: processedIds_def)
  from c have cfs: "c \<in> set fs" and cm: "matchesDep c (fst e)"
    by (auto simp: codeFindingsFor_def)
  from cm have cc: "category c = ''code''" by (simp add: matchesDep_def)
  from u have fc: "category f = ''code''" by (simp add: unmatchedCode_def)
  have "inj_on fid (set (filter (\<lambda>f. category f = ''code'') fs))"
    using dist by (simp add: distinct_map)
  with cfs cc f fc id have "c = f" by (auto simp: inj_on_def)
  with cm have "matchesDep f (fst e)" by simp
  moreover from u e have "\<not> matchesDep f (fst e)" by (auto simp: unmatchedCode_def list_all_iff)
  ultimately show False by simp
qed




section \<open>Merge correctness\<close>




text \<open>
  Claim C4, as the code has it. Take a dependency Finding that is the last one of its
  package in the finding list (names compared in lower case), that has the severity
  \<open>high\<close> as every Finding of the dependency detection unit has, and that is matched with
  one or more code Findings. Then the output contains the unified finding: its evidence
  is the dependency's evidence followed by the code findings' evidence, its severity,
  weight, id and \<open>dependencyInfo\<close> are the dependency's, its title is the package name
  followed by " - Usage Detected", and \<open>codeUsage\<close> records the files and locations of
  the code evidence.
\<close>

theorem merged_finding_fields:
  assumes "lastDep fs k = Some d" and "dependencyInfo d = Some di"
    and "codeFindingsFor fs k \<noteq> []" and "severity d = ''high''"
  shows "mergedFinding d di (codeFindingsFor fs k) \<in> set (mergeDependencyAndCodeFindings fs)
    \<and> evidence (mergedFinding d di (codeFindingsFor fs k))
        = evidence d @ concat (map evidence (codeFindingsFor fs k))
    \<and> severity (mergedFinding d di (codeFindingsFor fs k)) = severity d
    \<and> weight (mergedFinding d di (codeFindingsFor fs k)) = weight d
    \<and> title (mergedFinding d di (codeFindingsFor fs k)) = dep_name di @ '' - Usage Detected''
    \<and> fid (mergedFinding d di (codeFindingsFor fs k)) = fid d
    \<and> dependencyInfo (mergedFinding d di (codeFindingsFor fs k)) = Some di
    \<and> codeUsage (mergedFinding d di (codeFindingsFor fs k))
        = Some \<lparr>files = concat (map (\<lambda>cf. map ev_file (evidence cf)) (codeFindingsFor fs k)),
                locations = concat (map evidence (codeFindingsFor fs k))\<rparr>"
proof -
  have "(k, d) \<in> set (collectDependencies fs)" using assms(1) by (rule lastDep_key_mem)
  then have "mergeOne (codeFindingsFor fs) (k, d) \<in> set (mergeDependencyAndCodeFindings fs)"
    by (simp add: merge_char)
  moreover have "mergeOne (codeFindingsFor fs) (k, d) = mergedFinding d di (codeFindingsFor fs k)"
    using assms(2,3) by (simp add: mergeOne_def)
  ultimately show ?thesis using assms(4) by (simp add: mergedFinding_def)
qed

theorem merged_finding_fields_witness:
  "mergedFinding exampleDepToml
       \<lparr>dep_name = ''openai'', dep_version = ''unspecified'', ecosystem = ''python'',
        dep_source = ''manual-parsing''\<rparr>
       (codeFindingsFor [exampleDep, exampleDepToml, exampleCode] ''openai'')
     \<in> set (mergeDependencyAndCodeFindings [exampleDep, exampleDepToml, exampleCode])
   \<and> severity (mergedFinding exampleDepToml
       \<lparr>dep_name = ''openai'', dep_version = ''unspecified'', ecosystem = ''python'',
        dep_source = ''manual-parsing''\<rparr>
       (codeFindingsFor [exampleDep, exampleDepToml, exampleCode] ''openai''))
     = severity exampleDepToml
   \<and> evidence (mergedFinding exampleDepToml
       \<lparr>dep_name = ''openai'', dep_version = ''unspecified'', ecosystem = ''python'',
        dep_source = ''manual-parsing''\<rparr>
       (codeFindingsFor [exampleDep, exampleDepToml, exampleCode] ''openai''))
     = evidence exampleDepToml @ evidence exampleCode"
proof -
  let ?fs = "[exampleDep, exampleDepToml, exampleCode]"
  let ?di = "\<lparr>dep_name = ''openai'', dep_version = ''unspecified'', ecosystem = ''python'',
        dep_source = ''manual-parsing''\<rparr>"
  have h1: "lastDep ?fs ''openai'' = Some exampleDepToml" by code_simp
  have h2: "dependencyInfo exampleDepToml = Some ?di" by (simp add: exampleDepToml_def)
  have h3: "codeFindingsFor ?fs ''openai'' \<noteq> []" by code_simp
  have h4: "severity exampleDepToml = ''high''" by (simp add: exampleDepToml_def)
  have c: "concat (map evidence (codeFindingsFor ?fs ''openai'')) = evidence exampleCode"
    by code_simp
  note t = merged_finding_fields[OF h1 h2 h3 h4]
  from t have e: "evidence (mergedFinding exampleDepToml ?di (codeFindingsFor ?fs ''openai''))
      = evidence exampleDepToml @ evidence exampleCode"
    by (simp only: c)
  show ?thesis using t e by blast
qed

text \<open>
  The claim as it is stated fails when a package is declared in two manifests. The
  dependency Finding of the first declaration is matched with the code Finding, yet the
  only Finding of the output is built from the second declaration: its evidence is
  \<open>pyproject.toml\<close> and \<open>app.py\<close>, and the evidence of the first declaration,
  \<open>requirements.txt\<close>, is combined with nothing.
\<close>

theorem merged_finding_earlier_declaration_counterexample:
  "isDep exampleDep
   \<and> codeFindingsFor [exampleDep, exampleDepToml, exampleCode] (pkgKey exampleDep) = [exampleCode]
   \<and> map ev_file (evidence exampleDep) = [''requirements.txt'']
   \<and> map (map ev_file) (map evidence
        (mergeDependencyAndCodeFindings [exampleDep, exampleDepToml, exampleCode]))
       = [[''pyproject.toml'', ''app.py'']]"
  by code_simp

section \<open>Cardinality and pass-through\<close>

text \<open>
  Claim C9, as the code has it. The output is never longer than the input. Every
  Finding whose category is neither \<open>dependencies\<close> nor \<open>code\<close> is in the output
  unchanged; so is every code Finding whose id is not the id of a merged code Finding,
  hence, when the ids of the code Findings are distinct, every unmatched code Finding; and
  so is every unmatched dependency Finding that is the last one of its package.
\<close>

theorem reconciler_cardinality_and_pass_through:
  "length (mergeDependencyAndCodeFindings fs) \<le> length fs
   \<and> (\<forall>f \<in> set fs. category f \<noteq> ''dependencies'' \<and> category f \<noteq> ''code''
         \<longrightarrow> f \<in> set (mergeDependencyAndCodeFindings fs))
   \<and> (\<forall>f \<in> set fs. category f = ''code'' \<and> fid f \<notin> processedIds fs
         \<longrightarrow> f \<in> set (mergeDependencyAndCodeFindings fs))
   \<and> (distinct (map fid (filter (\<lambda>f. category f = ''code'') fs))
         \<longrightarrow> (\<forall>f \<in> set fs. unmatchedCode fs f \<longrightarrow> f \<in> set (mergeDependencyAndCodeFindings fs)))
   \<and> (\<forall>f \<in> set fs. lastDep fs (pkgKey f) = Some f \<and> codeFindingsFor fs (pkgKey f) = []
         \<longrightarrow> f \<in> set (mergeDependencyAndCodeFindings fs))"
proof (intro conjI ballI impI)
  show "length (mergeDependencyAndCodeFindings fs) \<le> length fs" by (rule merge_length)
next
  fix f assume "f \<in> set fs" "category f \<noteq> ''dependencies'' \<and> category f \<noteq> ''code''"
  then show "f \<in> set (mergeDependencyAndCodeFindings fs)"
    by (intro keeps_in_output) (auto simp: keeps_def)
next
  fix f assume "f \<in> set fs" "category f = ''code'' \<and> fid f \<notin> processedIds fs"
  then show "f \<in> set (mergeDependencyAndCodeFindings fs)"
    by (intro keeps_in_output) (auto simp: keeps_def)
next
  fix f assume d: "distinct (map fid (filter (\<lambda>f. category f = ''code'') fs))"
    and f: "f \<in> set fs" and u: "unmatchedCode fs f"
  have "fid f \<notin> processedIds fs" using d f u by (rule processedIds_unmatched)
  moreover from u have "category f = ''code''" by (simp add: unmatchedCode_def)
  ultimately show "f \<in> set (mergeDependencyAndCodeFindings fs)"
    using f by (intro keeps_in_output) (auto simp: keeps_def)
next
  fix f assume "f \<in> set fs" "lastDep fs (pkgKey f) = Some f \<and> codeFindingsFor fs (pkgKey f) = []"
  then show "f \<in> set (mergeDependencyAndCodeFindings fs)"
    using unmatched_dep_in_output by blast
qed

theorem reconciler_cardinality_and_pass_through_witness:
  "length (mergeDependencyAndCodeFindings [exampleDep, exampleDepToml, exampleCompat])
     \<le> length [exampleDep, exampleDepToml, exampleCompat]
   \<and> exampleCompat \<in> set (mergeDependencyAndCodeFindings [exampleDep, exampleDepToml, exampleCompat])
   \<and> exampleDepToml \<in> set (mergeDependencyAndCodeFindings [exampleDep, exampleDepToml, exampleCompat])"
proof -
  let ?fs = "[exampleDep, exampleDepToml, exampleCompat]"
  have h1: "exampleCompat \<in> set ?fs" by simp
  have h2: "distinct (map fid (filter (\<lambda>f. category f = ''code'') ?fs))" by code_simp
  have h3: "unmatchedCode ?fs exampleCompat" by code_simp
  have h4: "exampleDepToml \<in> set ?fs" by simp
  have h5: "lastDep ?fs (pkgKey exampleDepToml) = Some exampleDepToml
      \<and> codeFindingsFor ?fs (pkgKey exampleDepToml) = []" by code_simp
  show ?thesis
    using reconciler_cardinality_and_pass_through[of ?fs] h1 h2 h3 h4 h5 by blast
qed

text \<open>
  The claim as it is stated fails when a package is declared in two manifests: neither
  dependency Finding is matched with a code Finding, and the first one is not in the output.
\<close>

theorem unmatched_dependency_dropped_counterexample:
  "exampleDep \<in> set [exampleDep, exampleDepToml]
   \<and> category exampleDep = ''dependencies''
   \<and> codeFindingsFor [exampleDep, exampleDepToml] (pkgKey exampleDep) = []
   \<and> exampleDep \<notin> set (mergeDependencyAndCodeFindings [exampleDep, exampleDepToml])"
  by code_simp

section \<open>One dependency finding for a package\<close>

text \<open>
  Claim C10. For every package key, the dependency-category Findings of the output whose
  package name, in lower case, is that key are: none, when the input has no dependency
  Finding with that key; otherwise exactly one, made from the last dependency Finding of
  the input with that key (that finding itself, or the unified finding built from it).
  Earlier dependency Findings with the same key leave no trace in the output.
\<close>

theorem one_dependency_finding_per_package:
  "filter (\<lambda>g. category g = ''dependencies'' \<and> pkgKey g = k) (mergeDependencyAndCodeFindings fs) =
     (case lastDep fs k of None \<Rightarrow> [] | Some d \<Rightarrow> [mergeOne (codeFindingsFor fs) (k, d)])"
proof -
  let ?dm = "collectDependencies fs"
  let ?P = "\<lambda>g. category g = ''dependencies'' \<and> pkgKey g = k"
  have a: "filter ?P (filter (keeps (processedIds fs)) fs) = []"
    by (auto simp: filter_empty_conv dest: keeps_not_dep)
  have "\<forall>e \<in> set ?dm. ?P (mergeOne (codeFindingsFor fs) e) = (fst e = k)"
  proof
    fix e assume e: "e \<in> set ?dm"
    obtain k' d where kd: "e = (k', d)" by (cases e)
    with e have "lastDep fs k' = Some d" by (simp add: collect_entry)
    then have "isDep d" "pkgKey d = k'" using lastDep_props by auto
    then show "?P (mergeOne (codeFindingsFor fs) e) = (fst e = k)"
      by (simp add: kd mergeOne_fields)
  qed
  then have "filter (?P \<circ> mergeOne (codeFindingsFor fs)) ?dm = filter (\<lambda>e. fst e = k) ?dm"
    by (intro filter_cong) auto
  then have b: "filter ?P (map (mergeOne (codeFindingsFor fs)) ?dm) =
      map (mergeOne (codeFindingsFor fs)) (case lastDep fs k of None \<Rightarrow> [] | Some d \<Rightarrow> [(k, d)])"
    by (simp add: filter_map filter_key[OF distinct_collect] map_of_collect)
  show ?thesis
    unfolding merge_char using a b by (simp split: option.splits)
qed

theorem one_dependency_finding_per_package_witness:
  "filter (\<lambda>g. category g = ''dependencies'' \<and> pkgKey g = ''openai'')
     (mergeDependencyAndCodeFindings [exampleDep, exampleDepCaps, exampleDepToml])
     = [exampleDepToml]"
proof -
  have h: "(case lastDep [exampleDep, exampleDepCaps, exampleDepToml] ''openai'' of None \<Rightarrow> []
       | Some d \<Rightarrow> [mergeOne (codeFindingsFor [exampleDep, exampleDepCaps, exampleDepToml])
                       (''openai'', d)]) = [exampleDepToml]"
    by code_simp
  show ?thesis
    using one_dependency_finding_per_package[of "''openai''" "[exampleDep, exampleDepCaps, exampleDepToml]"] h
    by simp
qed

section \<open>Error isolation in the orchestrator\<close>

lemma runDetector_catches:
  "fn d (buildInput di d st) w = (Inl err, w') \<Longrightarrow> runDetector di d st w = (Inr st, w')"
  by (simp add: runDetector_def tryBlock_def)

lemma runDetector_returns: "\<exists>st' w'. runDetector di d st w = (Inr st', w')"
proof (cases "tryBlock di d st w")
  case (Pair r w')
  then show ?thesis by (cases r) (simp_all add: runDetector_def)
qed

lemma runDetectors_returns: "\<exists>st' w'. runDetectors di ds st w = (Inr st', w')"
proof (induction ds arbitrary: st w)
  case Nil
  then show ?case by simp
next
  case (Cons d ds)
  obtain st1 w1 where "runDetector di d st w = (Inr st1, w1)"
    using runDetector_returns[of di d st w] by auto
  with Cons.IH[of st1 w1] show ?case by simp
qed

lemma resumeCode_catches:
  assumes "codeResumeState st = Some rs" and "codeDetectorPaused st"
    and "fn_codeDetector ext (di\<lparr>in_resumeState := Some rs\<rparr>) (waitForReset ext rs w) = (Inl err, w')"
  shows "resumeCode ext di st w = (Inr st, w')"
  using assms by (simp add: resumeCode_def resumeTry_def)

lemma resumeCode_returns: "\<exists>st' w'. resumeCode ext di st w = (Inr st', w')"
proof (cases "codeResumeState st")
  case None
  then show ?thesis by (simp add: resumeCode_def)
next
  case (Some rs)
  show ?thesis
  proof (cases "codeDetectorPaused st")
    case False
    with Some show ?thesis by (simp add: resumeCode_def)
  next
    case True
    obtain r w' where rw: "resumeTry ext di rs st (waitForReset ext rs w) = (r, w')"
      by (cases "resumeTry ext di rs st (waitForReset ext rs w)")
    with Some True show ?thesis by (cases r) (simp_all add: resumeCode_def)
  qed
qed

lemma runPipeline_returns: "\<exists>st' w'. runPipeline ext di w = (Inr st', w')"
proof -
  obtain st1 w1 where "runDetectors di (detectors ext) initialPipeline w = (Inr st1, w1)"
    using runDetectors_returns[of di "detectors ext" initialPipeline w] by auto
  moreover obtain st2 w2 where "resumeCode ext di st1 w1 = (Inr st2, w2)"
    using resumeCode_returns[of ext di st1 w1] by auto
  ultimately show ?thesis by (simp add: runPipeline_def)
qed

lemma runDetectors_skips:
  "fn d (buildInput di d st) w = (Inl err, w')
    \<Longrightarrow> runDetectors di (d # ds) st w = runDetectors di ds st w'"
  by (simp add: runDetector_catches)

lemma runDetectors_append:
  "runDetectors di (xs @ ys) st w =
     (case runDetectors di xs st w of
        (Inl err, w') \<Rightarrow> (Inl err, w')
      | (Inr st', w') \<Rightarrow> runDetectors di ys st' w')"
proof (induction xs arbitrary: st w)
  case Nil
  show ?case by simp
next
  case (Cons x xs)
  show ?case
  proof (cases "runDetector di x st w")
    case (Pair r w1)
    then show ?thesis by (cases r) (simp_all add: Cons.IH)
  qed
qed

lemma runDetectors_skips_at:
  assumes "runDetectors di ds1 st w = (Inr st1, w1)"
    and "fn d (buildInput di d st1) w1 = (Inl err, w')"
  shows "runDetectors di (ds1 @ d # ds2) st w = runDetectors di ds2 st1 w'"
  using assms by (simp add: runDetectors_append runDetector_catches)

lemma runDetector_keeps_findings:
  "runDetector di d st w = (Inr st', w') \<Longrightarrow> \<exists>fs. allFindings st' = allFindings st @ fs"
proof -
  assume r: "runDetector di d st w = (Inr st', w')"
  obtain x w1 where t: "tryBlock di d st w = (x, w1)" by (cases "tryBlock di d st w")
  show ?thesis
  proof (cases x)
    case (Inl e)
    with r t have "st' = st" by (simp add: runDetector_def)
    then show ?thesis by simp
  next
    case (Inr s)
    with r t have s: "s = st'" by (simp add: runDetector_def)
    obtain y w2 where f: "fn d (buildInput di d st) w = (y, w2)"
      by (cases "fn d (buildInput di d st) w")
    show ?thesis
    proof (cases y)
      case (Inl e)
      with f t Inr show ?thesis by (simp add: tryBlock_def)
    next
      case res: (Inr result)
      with f t Inr s have h: "st' = handleResult d result st" by (simp add: tryBlock_def)
      show ?thesis unfolding h
        by (cases result) (simp_all add: handleResult_def Let_def split: option.splits)
    qed
  qed
qed

lemma runDetectors_keeps_findings:
  "runDetectors di ds st w = (Inr st', w') \<Longrightarrow> \<exists>fs. allFindings st' = allFindings st @ fs"
proof (induction ds arbitrary: st w)
  case Nil
  then show ?case by simp
next
  case (Cons d ds)
  obtain st1 w1 where r: "runDetector di d st w = (Inr st1, w1)"
    using runDetector_returns[of di d st w] by auto
  with Cons.prems have "runDetectors di ds st1 w1 = (Inr st', w')" by simp
  from Cons.IH[OF this] obtain fs where a: "allFindings st' = allFindings st1 @ fs" by auto
  from runDetector_keeps_findings[OF r] obtain gs where "allFindings st1 = allFindings st @ gs"
    by auto
  with a have "allFindings st' = allFindings st @ (gs @ fs)" by simp
  then show ?case by blast
qed

text \<open>
  Claim C8. When a detection unit throws, the iteration of the orchestrator ends with the
  pipeline variables as they were (the unit has added no Finding), and likewise when the
  resumed code unit throws. The loop then goes on with the remaining units: the loop over
  a throwing unit followed by other units is the loop over those other units, and so it
  is at any position of the unit list, after the units that ran before. Findings gathered
  by the loop are never taken away by a later unit. The loop over any list of units
  returns; and the analysis run returns a result, whose score is the score of the
  findings it returns, whatever the units do.
\<close>

theorem unit_errors_are_isolated:
  "(fn d (buildInput di d st) w = (Inl err, w') \<longrightarrow> runDetector di d st w = (Inr st, w'))
   \<and> (codeResumeState st = Some rs \<and> codeDetectorPaused st
        \<and> fn_codeDetector ext (di\<lparr>in_resumeState := Some rs\<rparr>) (waitForReset ext rs w) = (Inl err, w')
      \<longrightarrow> resumeCode ext di st w = (Inr st, w'))
   \<and> (fn d (buildInput di d st) w = (Inl err, w')
      \<longrightarrow> runDetectors di (d # ds) st w = runDetectors di ds st w')
   \<and> (runDetectors di ds1 st0 w0 = (Inr st, w) \<and> fn d (buildInput di d st) w = (Inl err, w')
      \<longrightarrow> runDetectors di (ds1 @ d # ds) st0 w0 = runDetectors di ds st w')
   \<and> (\<exists>st' w'' fs. runDetectors di ds st w = (Inr st', w'')
         \<and> allFindings st' = allFindings st @ fs)
   \<and> (\<exists>r w''. analyzeRepository ext di w = (Inr r, w'')
         \<and> res_score r = calculateScore (res_findings r))"
proof -
  obtain st2 w2 where "runPipeline ext di w = (Inr st2, w2)"
    using runPipeline_returns[of ext di w] by auto
  then have a: "\<exists>r w''. analyzeRepository ext di w = (Inr r, w'')
         \<and> res_score r = calculateScore (res_findings r)"
    by (simp add: analyzeRepository_def Let_def)
  obtain st' w'' where r: "runDetectors di ds st w = (Inr st', w'')"
    using runDetectors_returns[of di ds st w] by auto
  from runDetectors_keeps_findings[OF r] obtain fs where "allFindings st' = allFindings st @ fs"
    by auto
  with r have b: "\<exists>st' w'' fs. runDetectors di ds st w = (Inr st', w'')
         \<and> allFindings st' = allFindings st @ fs" by blast
  have c: "fn d (buildInput di d st) w = (Inl err, w')
      \<longrightarrow> runDetectors di (d # ds) st w = runDetectors di ds st w'"
    using runDetectors_skips[of d di st w err w' ds] by simp
  have e: "runDetectors di ds1 st0 w0 = (Inr st, w) \<and> fn d (buildInput di d st) w = (Inl err, w')
      \<longrightarrow> runDetectors di (ds1 @ d # ds) st0 w0 = runDetectors di ds st w'"
    using runDetectors_skips_at[of di ds1 st0 w0 st w d err w' ds] by simp
  have f: "fn d (buildInput di d st) w = (Inl err, w') \<longrightarrow> runDetector di d st w = (Inr st, w')"
    using runDetector_catches[of d di st w err w'] by simp
  have g: "codeResumeState st = Some rs \<and> codeDetectorPaused st
        \<and> fn_codeDetector ext (di\<lparr>in_resumeState := Some rs\<rparr>) (waitForReset ext rs w) = (Inl err, w')
      \<longrightarrow> resumeCode ext di st w = (Inr st, w')"
    using resumeCode_catches[of st rs ext di w err w'] by simp
  from f g c e b a show ?thesis by (intro conjI)
qed

theorem unit_errors_are_isolated_witness:
  "runDetector exampleInput (plainDetector ''Metadata'' throwingUnit) pausedPipeline pausedWorld
     = (Inr pausedPipeline, pausedWorld)
   \<and> resumeCode failingExternals exampleInput pausedPipeline pausedWorld
     = (Inr pausedPipeline, pausedWorld)
   \<and> runDetectors exampleInput
        [plainDetector ''Metadata'' throwingUnit,
         plainDetector ''Configuration'' (findingUnit exampleConfig)] pausedPipeline pausedWorld
     = (Inr (pausedPipeline\<lparr>allFindings := [exampleConfig]\<rparr>), pausedWorld)
   \<and> runDetectors exampleInput
        ([plainDetector ''Dependencies'' manifestUnit]
           @ plainDetector ''Metadata'' throwingUnit
           # [plainDetector ''Configuration'' (findingUnit exampleConfig)])
        initialPipeline pausedWorld
     = (Inr (initialPipeline\<lparr>allFindings := [exampleDep, exampleConfig]\<rparr>), pausedWorld)
   \<and> fst (analyzeRepository failingExternals exampleInput pausedWorld)
     = Inr \<lparr>res_score = 9, res_confidence = getConfidenceLevel 9,
            res_findings = [exampleDep, exampleConfig]\<rparr>"
proof -
  let ?rs = "\<lparr>sdkFindings = [], lastSearchIndex = 1, lastRateLimit = exhausted, rs_findings = []\<rparr>"
  let ?thr = "plainDetector ''Metadata'' throwingUnit :: api_world detector"
  let ?cfg = "plainDetector ''Configuration'' (findingUnit exampleConfig) :: api_world detector"
  let ?dep = "plainDetector ''Dependencies'' manifestUnit :: api_world detector"
  let ?st1 = "initialPipeline\<lparr>allFindings := [exampleDep]\<rparr>"
  have h1: "fn ?thr (buildInput exampleInput ?thr pausedPipeline) pausedWorld
      = (Inl (Thrown ''TypeError''), pausedWorld)"
    by (simp add: plainDetector_def throwingUnit_def)
  have h2: "codeResumeState pausedPipeline = Some ?rs \<and> codeDetectorPaused pausedPipeline"
    by (simp add: pausedPipeline_def initialPipeline_def)
  have w: "waitForReset failingExternals ?rs pausedWorld = pausedWorld"
    by (simp add: waitForReset_def failingExternals_def quietExternals_def exhausted_def Let_def)
  have h3: "fn_codeDetector failingExternals (exampleInput\<lparr>in_resumeState := Some ?rs\<rparr>)
      (waitForReset failingExternals ?rs pausedWorld) = (Inl (Thrown ''TypeError''), pausedWorld)"
    unfolding w by (simp add: failingExternals_def quietExternals_def throwingUnit_def)
  have h4: "runDetectors exampleInput [?dep] initialPipeline pausedWorld = (Inr ?st1, pausedWorld)"
    by (simp add: runDetector_def tryBlock_def handleResult_def plainDetector_def
        manifestUnit_def initialPipeline_def Let_def)
  have h5: "fn ?thr (buildInput exampleInput ?thr ?st1) pausedWorld
      = (Inl (Thrown ''TypeError''), pausedWorld)"
    by (simp add: plainDetector_def throwingUnit_def)
  have r1: "runDetectors exampleInput [?cfg] pausedPipeline pausedWorld
      = (Inr (pausedPipeline\<lparr>allFindings := [exampleConfig]\<rparr>), pausedWorld)"
    by (simp add: runDetector_def tryBlock_def handleResult_def plainDetector_def
        findingUnit_def pausedPipeline_def initialPipeline_def)
  have r2: "runDetectors exampleInput [?cfg] ?st1 pausedWorld
      = (Inr (initialPipeline\<lparr>allFindings := [exampleDep, exampleConfig]\<rparr>), pausedWorld)"
    by (simp add: runDetector_def tryBlock_def handleResult_def plainDetector_def
        findingUnit_def initialPipeline_def)
  have r3: "fst (analyzeRepository failingExternals exampleInput pausedWorld)
     = Inr \<lparr>res_score = 9, res_confidence = getConfidenceLevel 9,
            res_findings = [exampleDep, exampleConfig]\<rparr>"
    by code_simp
  note t1 = unit_errors_are_isolated[where d = ?thr and di = exampleInput
      and st = pausedPipeline and w = pausedWorld and err = "Thrown ''TypeError''"
      and w' = pausedWorld and rs = ?rs and ext = failingExternals and ds = "[?cfg]"
      and ?ds1.0 = "[]" and ?st0.0 = pausedPipeline and ?w0.0 = pausedWorld]
  note t2 = unit_errors_are_isolated[where d = ?thr and di = exampleInput
      and st = ?st1 and w = pausedWorld and err = "Thrown ''TypeError''"
      and w' = pausedWorld and rs = ?rs and ext = failingExternals and ds = "[?cfg]"
      and ?ds1.0 = "[?dep]" and ?st0.0 = initialPipeline and ?w0.0 = pausedWorld]
  from t1 h1 have a: "runDetector exampleInput ?thr pausedPipeline pausedWorld
      = (Inr pausedPipeline, pausedWorld)" by blast
  from t1 h2 h3 have b: "resumeCode failingExternals exampleInput pausedPipeline pausedWorld
      = (Inr pausedPipeline, pausedWorld)" by blast
  from t1 h1 have "runDetectors exampleInput (?thr # [?cfg]) pausedPipeline pausedWorld
      = runDetectors exampleInput [?cfg] pausedPipeline pausedWorld" by blast
  then have c: "runDetectors exampleInput [?thr, ?cfg] pausedPipeline pausedWorld
      = (Inr (pausedPipeline\<lparr>allFindings := [exampleConfig]\<rparr>), pausedWorld)"
    by (simp only: r1)
  from t2 h4 h5 have "runDetectors exampleInput ([?dep] @ ?thr # [?cfg]) initialPipeline pausedWorld
      = runDetectors exampleInput [?cfg] ?st1 pausedWorld" by blast
  then have e: "runDetectors exampleInput ([?dep] @ ?thr # [?cfg]) initialPipeline pausedWorld
      = (Inr (initialPipeline\<lparr>allFindings := [exampleDep, exampleConfig]\<rparr>), pausedWorld)"
    by (simp only: r2)
  from a b c e r3 show ?thesis by (intro conjI)
qed

section \<open>Pause and resume of the code-usage unit\<close>

text \<open>
  Claim C1 fails on the code. With an SBOM that lists \<open>anthropic\<close> and \<open>cohere\<close> the
  code unit plans five queries. The host leaves no quota after the first one, so the unit
  pauses after executing 1 of 5. The orchestrator resumes it without the SBOM context, so
  the resumed unit plans the ten fallback queries and runs them from index 1: the run
  sends ten requests in all, \<open>from anthropic import\<close> twice and \<open>from cohere import\<close>
  never, instead of each of the five planned queries once.
\<close>

theorem resumed_unit_runs_fallback_queries:
  "map query (buildSearches True exampleSbomDeps (codeExtensionsFor [''Python'']))
     = [''from anthropic import extension:py extension:pyw'',
        ''@anthropic-ai/sdk extension:py extension:pyw'',
        ''api.anthropic.com extension:py extension:pyw'',
        ''from cohere import extension:py extension:pyw'',
        ''/v1/chat/completions extension:py extension:pyw'']
   \<and> calls (snd (analyzeRepository searchExternals exampleInput pausedWorld))
     = [''from anthropic import extension:py extension:pyw'',
        ''openai.chat.completions extension:py extension:pyw'',
        ''from anthropic import extension:py extension:pyw'',
        ''@anthropic-ai/sdk extension:py extension:pyw'',
        ''from langchain extension:py extension:pyw'',
        ''ChatOpenAI extension:py extension:pyw'',
        ''google.generativeai extension:py extension:pyw'',
        ''api.openai.com extension:py extension:pyw'',
        ''api.anthropic.com extension:py extension:pyw'',
        ''/v1/chat/completions extension:py extension:pyw'']"
  by code_simp

section \<open>The component graph\<close>

lemma mapSet_new: "map_of m k = None \<Longrightarrow> mapSet k v m = m @ [(k, v)]"
proof (induction m)
  case Nil
  then show ?case by simp
next
  case (Cons a m)
  then show ?case by (cases a) (auto split: if_splits)
qed

lemma distinct_setAdd: "distinct xs \<Longrightarrow> distinct (setAdd x xs)"
  by (simp add: setAdd_def)

lemma componentStep_generic:
  "modelInfo f = None \<Longrightarrow>
   componentStep gen st f =
     st\<lparr>cs_components := cs_components st @ [genericComponent f (''component-'' @ gen (cs_drawn st))],
        cs_drawn := Suc (cs_drawn st)\<rparr>"
  by (simp add: componentStep_def)

lemma componentStep_known:
  "modelInfo f = Some mi \<Longrightarrow> map_of (cs_modelMap st) (provider mi @ ''-'' @ modelName mi) \<noteq> None \<Longrightarrow>
   componentStep gen st f = st"
  by (simp add: componentStep_def)

lemma distinct_addModelLibrary: "distinct libs \<Longrightarrow> distinct (addModelLibrary mi libs)"
  by (simp add: addModelLibrary_def distinct_setAdd split: option.splits)

lemma componentStep_new:
  assumes "modelInfo f = Some mi" and "map_of (cs_modelMap st) (provider mi @ ''-'' @ modelName mi) = None"
  shows "componentStep gen st f =
       st\<lparr>cs_modelMap := cs_modelMap st @
             [(provider mi @ ''-'' @ modelName mi,
               \<lparr>mr_component = modelComponent f mi (''model-'' @ gen (cs_drawn st)),
                bomRef = ''model-'' @ gen (cs_drawn st)\<rparr>)],
          cs_libraryDeps := addModelLibrary mi (cs_libraryDeps st),
          cs_drawn := Suc (cs_drawn st)\<rparr>"
  using assms by (simp add: componentStep_def Let_def mapSet_new)

lemma modelComponent_fields:
  "bom_ref (modelComponent f mi r) = r" "ctype (modelComponent f mi r) = ''machine-learning-model''"
  by (simp_all add: modelComponent_def Let_def)

lemma genericComponent_fields:
  "bom_ref (genericComponent f r) = r" "ctype (genericComponent f r) \<noteq> ''machine-learning-model''"
  by (simp_all add: genericComponent_def)

lemma step_drawn: "cs_drawn st \<le> cs_drawn (componentStep gen st f)"
  by (auto simp: componentStep_def Let_def split: option.splits)

lemma step_inv:
  assumes "cmInv gen n st"
  shows "cmInv gen n (componentStep gen st f)"
proof (cases "modelInfo f")
  case None
  show ?thesis
    unfolding componentStep_generic[OF None] using assms
    by (auto simp: cmInv_def genericComponent_fields less_Suc_eq)
next
  case (Some mi)
  show ?thesis
  proof (cases "map_of (cs_modelMap st) (provider mi @ ''-'' @ modelName mi) = None")
    case False
    with Some assms show ?thesis by (simp add: componentStep_known)
  next
    case True
    show ?thesis unfolding componentStep_new[OF Some True] using assms
      by (auto simp: cmInv_def modelComponent_fields less_Suc_eq distinct_addModelLibrary)
  qed
qed

lemma fold_inv: "cmInv gen n st \<Longrightarrow> cmInv gen n (foldl (componentStep gen) st fs)"
  by (induction fs arbitrary: st) (simp_all add: step_inv)

lemma init_inv: "cmInv gen n (initialCm n)"
  by (simp add: cmInv_def initialCm_def)

lemma ref_fresh:
  assumes inv: "cmInv gen n st" and inj: "inj_on gen {n ..< Suc (cs_drawn st)}"
  shows "''component-'' @ gen (cs_drawn st) \<notin> set (cmRefs st)"
    and "''model-'' @ gen (cs_drawn st) \<notin> set (cmRefs st)"
proof -
  have fresh: "gen i \<noteq> gen (cs_drawn st)" if "n \<le> i" "i < cs_drawn st" for i
  proof
    assume "gen i = gen (cs_drawn st)"
    moreover have "n \<le> cs_drawn st" using inv by (simp add: cmInv_def)
    ultimately have "i = cs_drawn st" using inj that by (auto simp: inj_on_def)
    with that show False by simp
  qed
  have shape: "\<exists>i. n \<le> i \<and> i < cs_drawn st \<and> (r = ''component-'' @ gen i \<or> r = ''model-'' @ gen i)"
    if "r \<in> set (cmRefs st)" for r
    using that inv by (fastforce simp: cmInv_def cmRefs_def)
  show "''component-'' @ gen (cs_drawn st) \<notin> set (cmRefs st)"
  proof
    assume "''component-'' @ gen (cs_drawn st) \<in> set (cmRefs st)"
    from shape[OF this] obtain i where "n \<le> i" "i < cs_drawn st" "gen (cs_drawn st) = gen i"
      by auto
    with fresh show False by force
  qed
  show "''model-'' @ gen (cs_drawn st) \<notin> set (cmRefs st)"
  proof
    assume "''model-'' @ gen (cs_drawn st) \<in> set (cmRefs st)"
    from shape[OF this] obtain i where "n \<le> i" "i < cs_drawn st" "gen (cs_drawn st) = gen i"
      by auto
    with fresh show False by force
  qed
qed

lemma step_distinct:
  assumes inv: "cmInv gen n st" and d: "distinct (cmRefs st)"
    and inj: "inj_on gen {n ..< cs_drawn (componentStep gen st f)}"
  shows "distinct (cmRefs (componentStep gen st f))"
proof (cases "modelInfo f")
  case None
  have e: "componentStep gen st f =
     st\<lparr>cs_components := cs_components st @ [genericComponent f (''component-'' @ gen (cs_drawn st))],
        cs_drawn := Suc (cs_drawn st)\<rparr>" by (rule componentStep_generic[OF None])
  from inj have inj': "inj_on gen {n ..< Suc (cs_drawn st)}" by (simp add: e)
  have "''component-'' @ gen (cs_drawn st) \<notin> set (cmRefs st)"
    by (rule ref_fresh(1)[OF inv inj'])
  then show ?thesis using d by (auto simp: e cmRefs_def genericComponent_fields)
next
  case (Some mi)
  show ?thesis
  proof (cases "map_of (cs_modelMap st) (provider mi @ ''-'' @ modelName mi) = None")
    case False
    with Some d show ?thesis by (simp add: componentStep_known)
  next
    case True
    note e = componentStep_new[OF Some True, of gen]
    from inj have inj': "inj_on gen {n ..< Suc (cs_drawn st)}" by (simp add: e)
    have "''model-'' @ gen (cs_drawn st) \<notin> set (cmRefs st)"
      by (rule ref_fresh(2)[OF inv inj'])
    then show ?thesis using d by (auto simp: e cmRefs_def)
  qed
qed

lemma fold_snoc: "foldl (componentStep gen) st (fs @ [f]) = componentStep gen (foldl (componentStep gen) st fs) f"
  by simp

lemma fold_distinct:
  "inj_on gen {n ..< cs_drawn (foldl (componentStep gen) (initialCm n) fs)} \<Longrightarrow>
   distinct (cmRefs (foldl (componentStep gen) (initialCm n) fs))"
proof (induction fs rule: rev_induct)
  case Nil
  then show ?case by (simp add: cmRefs_def initialCm_def)
next
  case (snoc f fs)
  let ?st = "foldl (componentStep gen) (initialCm n) fs"
  have le: "cs_drawn ?st \<le> cs_drawn (componentStep gen ?st f)" by (rule step_drawn)
  from snoc.prems have inj: "inj_on gen {n ..< cs_drawn (componentStep gen ?st f)}"
    by (simp only: fold_snoc)
  then have "inj_on gen {n ..< cs_drawn ?st}"
    by (rule inj_on_subset) (use le in auto)
  then have d: "distinct (cmRefs ?st)" by (rule snoc.IH)
  have inv: "cmInv gen n ?st" by (rule fold_inv[OF init_inv])
  show ?case unfolding fold_snoc by (rule step_distinct[OF inv d inj])
qed

lemma height_simps:
  "height (''repo-'' @ x) = 2" "height (''model-'' @ x) = 1"
  "height (''component-'' @ x) = 0" "height (''lib-'' @ x) = 0"
  by (simp_all add: height_def startsWith_def)

lemma distinct_libraryStep: "distinct libs \<Longrightarrow> distinct (libraryStep libs f)"
  by (simp add: libraryStep_def Let_def distinct_setAdd)

lemma distinct_libraryFold: "distinct libs \<Longrightarrow> distinct (foldl libraryStep libs fs)"
  by (induction fs arbitrary: libs) (simp_all add: distinct_libraryStep)

lemma libraryComponent_refs:
  "map bom_ref (concat (map libraryComponent libs))
     = map (\<lambda>l. ''lib-'' @ l) (filter (\<lambda>l. map_of knownLibraries l \<noteq> None) libs)"
  by (induction libs) (auto simp: libraryComponent_def split: option.splits)

lemma libraryComponent_type:
  "c \<in> set (concat (map libraryComponent libs)) \<Longrightarrow> ctype c = ''library''"
  by (auto simp: libraryComponent_def split: option.splits)

lemma library_refs:
  "map bom_ref (createLibraryComponents libs fs)
     = map (\<lambda>l. ''lib-'' @ l) (filter (\<lambda>l. map_of knownLibraries l \<noteq> None) (foldl libraryStep libs fs))"
  by (simp add: createLibraryComponents_def libraryComponent_refs)

lemma library_distinct:
  "distinct libs \<Longrightarrow> distinct (map bom_ref (createLibraryComponents libs fs))"
  unfolding library_refs
  by (simp add: distinct_map distinct_libraryFold inj_on_def)

lemma library_height: "c \<in> set (createLibraryComponents libs fs) \<Longrightarrow> height (bom_ref c) = 0"
proof -
  assume "c \<in> set (createLibraryComponents libs fs)"
  then have "bom_ref c \<in> set (map bom_ref (createLibraryComponents libs fs))" by simp
  then obtain l where "bom_ref c = ''lib-'' @ l" unfolding library_refs by auto
  then show ?thesis by (simp only: height_simps)
qed

lemma library_not_other:
  assumes "c \<in> set (createLibraryComponents libs fs)"
  shows "bom_ref c \<noteq> ''component-'' @ x" and "bom_ref c \<noteq> ''model-'' @ x"
proof -
  from assms have "bom_ref c \<in> set (map bom_ref (createLibraryComponents libs fs))" by simp
  then obtain l where "bom_ref c = ''lib-'' @ l" unfolding library_refs by auto
  then show "bom_ref c \<noteq> ''component-'' @ x" and "bom_ref c \<noteq> ''model-'' @ x" by simp_all
qed

lemma create_eq:
  "createMLModelComponents gen n fs =
     (\<lparr>components = cs_components (finalCm gen n fs)
          @ map (\<lambda>m. mr_component (snd m)) (cs_modelMap (finalCm gen n fs))
          @ createLibraryComponents (cs_libraryDeps (finalCm gen n fs)) fs,
       modelRefs = map snd (cs_modelMap (finalCm gen n fs)),
       libraryRefs = createLibraryComponents (cs_libraryDeps (finalCm gen n fs)) fs\<rparr>,
      cs_drawn (finalCm gen n fs))"
  by (simp add: createMLModelComponents_def finalCm_def initialCm_def Let_def)

lemma final_inv: "cmInv gen n (finalCm gen n fs)"
  unfolding finalCm_def by (rule fold_inv[OF init_inv])

lemma component_height:
  assumes "c \<in> set (components (fst (createMLModelComponents gen n fs)))"
  shows "height (bom_ref c) \<le> 1" and "ctype c = ''library'' \<Longrightarrow> height (bom_ref c) = 0"
proof -
  let ?st = "finalCm gen n fs"
  from assms consider
      (g) "c \<in> set (cs_components ?st)"
    | (m) e where "e \<in> set (cs_modelMap ?st)" "c = mr_component (snd e)"
    | (l) "c \<in> set (createLibraryComponents (cs_libraryDeps ?st) fs)"
    by (auto simp: create_eq)
  then have "height (bom_ref c) \<le> 1 \<and> (ctype c = ''library'' \<longrightarrow> height (bom_ref c) = 0)"
  proof cases
    case g
    with final_inv[of gen n fs] obtain i where "bom_ref c = ''component-'' @ gen i"
      by (auto simp: cmInv_def)
    then show ?thesis by (simp only: height_simps) simp
  next
    case m
    with final_inv[of gen n fs] have "ctype c = ''machine-learning-model''"
      and "\<exists>i. bom_ref c = ''model-'' @ gen i"
      by (auto simp: cmInv_def)
    then obtain i where "bom_ref c = ''model-'' @ gen i" by blast
    with \<open>ctype c = ''machine-learning-model''\<close> show ?thesis by (simp only: height_simps) simp
  next
    case l
    then show ?thesis by (simp add: library_height)
  qed
  then show "height (bom_ref c) \<le> 1" and "ctype c = ''library'' \<Longrightarrow> height (bom_ref c) = 0"
    by simp_all
qed

lemma modelRef_height:
  assumes "m \<in> set (modelRefs (fst (createMLModelComponents gen n fs)))"
  shows "height (bomRef m) = 1"
proof -
  from assms obtain e where "e \<in> set (cs_modelMap (finalCm gen n fs))" "m = snd e"
    by (auto simp: create_eq)
  with final_inv[of gen n fs] obtain i where "bomRef m = ''model-'' @ gen i"
    by (auto simp: cmInv_def)
  then show ?thesis by (simp only: height_simps)
qed

lemma cmRefs_shape:
  assumes "cmInv gen n st" and "r \<in> set (cmRefs st)"
  shows "\<exists>i. r = ''component-'' @ gen i \<or> r = ''model-'' @ gen i"
proof -
  from assms(2) consider (c) c where "c \<in> set (cs_components st)" "r = bom_ref c"
    | (m) e where "e \<in> set (cs_modelMap st)" "r = bomRef (snd e)"
    by (auto simp: cmRefs_def)
  then show ?thesis
  proof cases
    case c
    from assms(1) c(1) obtain i where "bom_ref c = ''component-'' @ gen i"
      unfolding cmInv_def by blast
    with c(2) show ?thesis by blast
  next
    case m
    from assms(1) m(1) obtain i where "bomRef (snd e) = ''model-'' @ gen i"
      unfolding cmInv_def by blast
    with m(2) show ?thesis by blast
  qed
qed

lemma model_component_refs:
  assumes "cmInv gen n st"
  shows "map (\<lambda>m. bom_ref (mr_component (snd m))) (cs_modelMap st)
      = map (\<lambda>e. bomRef (snd e)) (cs_modelMap st)"
proof -
  have "\<forall>e \<in> set (cs_modelMap st). bom_ref (mr_component (snd e)) = bomRef (snd e)"
    using assms unfolding cmInv_def by blast
  then show ?thesis by simp
qed

lemma components_distinct:
  assumes "inj_on gen {n ..< snd (createMLModelComponents gen n fs)}"
  shows "distinct (map bom_ref (components (fst (createMLModelComponents gen n fs))))"
proof -
  let ?st = "finalCm gen n fs"
  let ?libs = "createLibraryComponents (cs_libraryDeps ?st) fs"
  have inv: "cmInv gen n ?st" by (rule final_inv)
  from assms have "inj_on gen {n ..< cs_drawn ?st}" by (simp add: create_eq)
  then have d: "distinct (cmRefs ?st)" unfolding finalCm_def by (rule fold_distinct)
  have refs: "map bom_ref (components (fst (createMLModelComponents gen n fs)))
      = cmRefs ?st @ map bom_ref ?libs"
    by (simp add: create_eq cmRefs_def o_def model_component_refs[OF inv])
  have "distinct (cs_libraryDeps ?st)" using inv unfolding cmInv_def by blast
  then have dl: "distinct (map bom_ref ?libs)" by (rule library_distinct)
  have disj: "set (cmRefs ?st) \<inter> set (map bom_ref ?libs) = {}"
  proof -
    have "r \<notin> set (map bom_ref ?libs)" if "r \<in> set (cmRefs ?st)" for r
    proof
      assume "r \<in> set (map bom_ref ?libs)"
      then obtain c where c: "c \<in> set ?libs" "r = bom_ref c" by auto
      from cmRefs_shape[OF inv that] obtain i where
        "r = ''component-'' @ gen i \<or> r = ''model-'' @ gen i" by blast
      with c(2) library_not_other[OF c(1)] show False by blast
    qed
    then show ?thesis by blast
  qed
  show ?thesis unfolding refs using d dl disj by (simp only: distinct_append)
qed

lemma edgeList_append: "edgeList (a @ b) = edgeList a @ edgeList b"
  by (simp add: edgeList_def)

lemma edgeList_Cons: "edgeList (d # ds) = map (\<lambda>x. (dep_ref d, x)) (dependsOn d) @ edgeList ds"
  by (simp add: edgeList_def)

lemma edgeList_leaves: "edgeList (map (\<lambda>lib. \<lparr>dep_ref = g lib, dependsOn = []\<rparr>) libs) = []"
  by (induction libs) (simp_all add: edgeList_def)

lemma edgeList_models:
  "(a, b) \<in> set (edgeList (map (\<lambda>model. \<lparr>dep_ref = bomRef model, dependsOn = md model\<rparr>) ms))
     \<longleftrightarrow> (\<exists>m \<in> set ms. a = bomRef m \<and> b \<in> set (md m))"
  by (auto simp: edgeList_def)

lemma modelDepsJson_height: "x \<in> set (modelDepsJson ids m) \<Longrightarrow> height x = 0"
  by (auto simp: modelDepsJson_def Let_def height_def startsWith_def split: if_splits)

lemma modelDepsXml_height: "x \<in> set (modelDepsXml ids m) \<Longrightarrow> height x = 0"
  by (auto simp: modelDepsXml_def Let_def height_def startsWith_def split: if_splits)

lemma mainRef_height: "height (mainRef own rep) = 2"
  unfolding mainRef_def by (rule height_simps)

lemma cdxDeps_edges:
  "(a, b) \<in> set (edgeList (cdxDeps root comps md ms libs))
     \<longleftrightarrow> (a = root \<and> b \<in> bom_ref ` set comps) \<or> (\<exists>m \<in> set ms. a = bomRef m \<and> b \<in> set (md m))"
  unfolding cdxDeps_def edgeList_append edgeList_leaves
  by (simp add: edgeList_Cons edgeList_models del: edgeList_def) (auto simp: edgeList_def)

lemma cdx_acyclic:
  assumes comps: "\<forall>c \<in> set comps. height (bom_ref c) \<le> 1"
    and ms: "\<forall>m \<in> set ms. height (bomRef m) = 1"
    and md: "\<forall>m x. x \<in> set (md m) \<longrightarrow> height x = 0"
    and root: "height root = 2"
  shows "acyclic (set (edgeList (cdxDeps root comps md ms libs)))"
proof (rule acyclicI_order[where f = height])
  fix a b assume "(a, b) \<in> set (edgeList (cdxDeps root comps md ms libs))"
  then consider (r) "a = root" "b \<in> bom_ref ` set comps"
    | (m) m where "m \<in> set ms" "a = bomRef m" "b \<in> set (md m)"
    unfolding cdxDeps_edges by blast
  then show "height b < height a"
  proof cases
    case r
    from r(2) comps have "height b \<le> 1" by auto
    with r(1) root show ?thesis by simp
  next
    case m
    from m(3) md have "height b = 0" by blast
    moreover from m(1,2) ms have "height a = 1" by simp
    ultimately show ?thesis by simp
  qed
qed

lemma cdx_root_edges:
  assumes ms: "\<forall>m \<in> set ms. height (bomRef m) = 1" and root: "height root = 2"
  shows "filter (\<lambda>e. fst e = root) (edgeList (cdxDeps root comps md ms libs))
     = map (\<lambda>c. (root, bom_ref c)) comps"
proof -
  let ?me = "edgeList (map (\<lambda>model. \<lparr>dep_ref = bomRef model, dependsOn = md model\<rparr>) ms)"
  have "fst e \<noteq> root" if "e \<in> set ?me" for e
  proof -
    obtain a b where e: "e = (a, b)" by (cases e)
    with that have "(a, b) \<in> set ?me" by simp
    then obtain m where "m \<in> set ms" "a = bomRef m" unfolding edgeList_models by blast
    with ms have "height a = 1" by simp
    with root e show ?thesis by auto
  qed
  then have "filter (\<lambda>e. fst e = root) ?me = []" by (simp add: filter_empty_conv)
  then show ?thesis
    unfolding cdxDeps_def edgeList_append edgeList_leaves
    by (simp add: edgeList_Cons o_def) (simp add: edgeList_def)
qed

lemma cdx_library_leaves:
  assumes h0: "height r = 0"
    and ms: "\<forall>m \<in> set ms. height (bomRef m) = 1" and root: "height root = 2"
  shows "(r, x) \<notin> set (edgeList (cdxDeps root comps md ms libs))"
proof
  assume "(r, x) \<in> set (edgeList (cdxDeps root comps md ms libs))"
  then consider "r = root" | m where "m \<in> set ms" "r = bomRef m"
    unfolding cdxDeps_edges by blast
  then have "height r \<noteq> 0"
  proof cases
    case 1
    with root show ?thesis by simp
  next
    case 2
    with ms show ?thesis by simp
  qed
  with h0 show False by simp
qed

lemma json_eq:
  "generateCycloneDXJson gen n own rep fs =
     (\<lparr>bom_root = mainRef own rep,
       bom_components = components (fst (createMLModelComponents gen n fs)),
       bom_dependencies =
         cdxDeps (mainRef own rep) (components (fst (createMLModelComponents gen n fs)))
           (modelDepsJson (map bom_ref (libraryRefs (fst (createMLModelComponents gen n fs)))))
           (modelRefs (fst (createMLModelComponents gen n fs)))
           (libraryRefs (fst (createMLModelComponents gen n fs)))\<rparr>,
      snd (createMLModelComponents gen n fs))"
  by (cases "createMLModelComponents gen n fs")
    (simp add: generateCycloneDXJson_def cdxDeps_def Let_def)

lemma xml_eq:
  "generateCycloneDXXml gen n own rep fs =
     (\<lparr>bom_root = mainRef own rep,
       bom_components = components (fst (createMLModelComponents gen n fs)),
       bom_dependencies =
         cdxDeps (mainRef own rep) (components (fst (createMLModelComponents gen n fs)))
           (modelDepsXml (map bom_ref (libraryRefs (fst (createMLModelComponents gen
              (snd (createMLModelComponents gen n fs)) fs)))))
           (modelRefs (fst (createMLModelComponents gen (snd (createMLModelComponents gen n fs)) fs)))
           (libraryRefs (fst (createMLModelComponents gen (snd (createMLModelComponents gen n fs)) fs)))\<rparr>,
      snd (createMLModelComponents gen (snd (createMLModelComponents gen n fs)) fs))"
proof -
  obtain r1 n1 where a: "createMLModelComponents gen n fs = (r1, n1)"
    by (cases "createMLModelComponents gen n fs")
  obtain r2 n2 where b: "createMLModelComponents gen n1 fs = (r2, n2)"
    by (cases "createMLModelComponents gen n1 fs")
  show ?thesis by (simp add: generateCycloneDXXml_def cdxDeps_def Let_def a b)
qed

lemma spdxEdgeList_snoc:
  "spdxEdgeList (rels @ [r]) = spdxEdgeList rels @ map (\<lambda>x. (rel_from r, x)) (rel_to r)"
  by (simp add: spdxEdgeList_def)

lemma spdxPackageFor_id:
  "spdxId (spdxPackageFor gen ns k f) = ns @ ''/AIPackage-'' @ gen k
   \<or> spdxId (spdxPackageFor gen ns k f) = ns @ ''/Package-'' @ gen k"
  by (simp add: spdxPackageFor_def split: option.splits)

lemma spdxPackageFor_name:
  "spdx_name (spdxPackageFor gen ns k f) = (case modelInfo f of Some mi \<Rightarrow> modelName mi | None \<Rightarrow> title f)"
  by (simp add: spdxPackageFor_def split: option.splits)

lemma spdxStep_cases:
  assumes "spdxStep gen ns (pkgs, rels, k) (f, idx) = (pkgs', rels', k')"
  shows "k' = Suc k \<and>
   (\<exists>p r. pkgs' = pkgs @ [p] \<and> rels' = rels @ [r] \<and> rel_from r = ns @ ''/Repository''
      \<and> rel_to r = [spdxId p]
      \<and> (spdxId p = ns @ ''/AIPackage-'' @ gen k \<or> spdxId p = ns @ ''/Package-'' @ gen k)
      \<and> spdx_name p = (case modelInfo f of Some mi \<Rightarrow> modelName mi | None \<Rightarrow> title f))"
proof -
  let ?p = "spdxPackageFor gen ns k f"
  let ?r = "spdxRelationshipFor ns f idx ?p"
  from assms have e: "pkgs' = pkgs @ [?p]" "rels' = rels @ [?r]" "k' = Suc k"
    by (simp_all add: spdxStep_def Let_def)
  have r: "rel_from ?r = ns @ ''/Repository''" "rel_to ?r = [spdxId ?p]"
    by (simp_all add: spdxRelationshipFor_def)
  show ?thesis
    using e r spdxPackageFor_id[of gen ns k f] spdxPackageFor_name[of gen ns k f] by blast
qed

lemma spdxStep_inv:
  assumes "spdxInv gen ns n acc"
  shows "spdxInv gen ns n (spdxStep gen ns acc fi)"
proof -
  obtain pkgs rels k where acc: "acc = (pkgs, rels, k)" by (cases acc)
  obtain f idx where fi: "fi = (f, idx)" by (cases fi)
  obtain pkgs' rels' k' where s: "spdxStep gen ns (pkgs, rels, k) (f, idx) = (pkgs', rels', k')"
    by (cases "spdxStep gen ns (pkgs, rels, k) (f, idx)")
  from spdxStep_cases[OF s] obtain p r where
    k': "k' = Suc k" and p: "pkgs' = pkgs @ [p]" and r: "rels' = rels @ [r]"
    and rf: "rel_from r = ns @ ''/Repository''" and rt: "rel_to r = [spdxId p]"
    and pid: "spdxId p = ns @ ''/AIPackage-'' @ gen k \<or> spdxId p = ns @ ''/Package-'' @ gen k"
    by blast
  from assms acc have i1: "n \<le> k"
    and i2: "spdxEdgeList rels = map (\<lambda>p. (ns @ ''/Repository'', spdxId p)) pkgs"
    and i3: "\<forall>p \<in> set pkgs. \<exists>i. n \<le> i \<and> i < k
              \<and> (spdxId p = ns @ ''/AIPackage-'' @ gen i \<or> spdxId p = ns @ ''/Package-'' @ gen i)"
    by (simp_all add: spdxInv_def)
  have j2: "spdxEdgeList rels' = map (\<lambda>p. (ns @ ''/Repository'', spdxId p)) pkgs'"
    by (simp add: r p spdxEdgeList_snoc i2 rf rt)
  have j3: "\<forall>q \<in> set pkgs'. \<exists>i. n \<le> i \<and> i < k'
              \<and> (spdxId q = ns @ ''/AIPackage-'' @ gen i \<or> spdxId q = ns @ ''/Package-'' @ gen i)"
  proof
    fix q assume "q \<in> set pkgs'"
    then consider "q \<in> set pkgs" | "q = p" by (auto simp: p)
    then show "\<exists>i. n \<le> i \<and> i < k'
              \<and> (spdxId q = ns @ ''/AIPackage-'' @ gen i \<or> spdxId q = ns @ ''/Package-'' @ gen i)"
    proof cases
      case 1
      with i3 obtain i where "n \<le> i" "i < k"
        "spdxId q = ns @ ''/AIPackage-'' @ gen i \<or> spdxId q = ns @ ''/Package-'' @ gen i" by blast
      then show ?thesis using k' by (intro exI[of _ i]) simp
    next
      case 2
      with pid i1 k' show ?thesis by (intro exI[of _ k]) simp
    qed
  qed
  show ?thesis using i1 j2 j3 by (simp add: acc fi s spdxInv_def k')
qed

lemma spdxFold_inv: "spdxInv gen ns n acc \<Longrightarrow> spdxInv gen ns n (foldl (spdxStep gen ns) acc xs)"
  by (induction xs arbitrary: acc) (simp_all add: spdxStep_inv)

lemma spdxFold_names:
  "foldl (spdxStep gen ns) (pkgs, rels, k) xs = (pkgs', rels', k') \<Longrightarrow>
   map spdx_name pkgs' = map spdx_name pkgs
       @ map (\<lambda>fi. case modelInfo (fst fi) of Some mi \<Rightarrow> modelName mi | None \<Rightarrow> title (fst fi)) xs
   \<and> k' = k + length xs"
proof (induction xs arbitrary: pkgs rels k)
  case Nil
  then show ?case by simp
next
  case (Cons fi xs)
  obtain f idx where fi: "fi = (f, idx)" by (cases fi)
  obtain p1 r1 k1 where s: "spdxStep gen ns (pkgs, rels, k) (f, idx) = (p1, r1, k1)"
    by (cases "spdxStep gen ns (pkgs, rels, k) (f, idx)")
  from spdxStep_cases[OF s] obtain p where k1: "k1 = Suc k" and p1: "p1 = pkgs @ [p]"
    and nm: "spdx_name p = (case modelInfo f of Some mi \<Rightarrow> modelName mi | None \<Rightarrow> title f)"
    by blast
  from Cons.prems have "foldl (spdxStep gen ns) (p1, r1, k1) xs = (pkgs', rels', k')"
    by (simp add: fi s)
  from Cons.IH[OF this] show ?case by (simp add: p1 k1 nm fi split: option.splits)
qed

lemma spdx_not_root:
  "spdxId p = ns @ ''/AIPackage-'' @ x \<or> spdxId p = ns @ ''/Package-'' @ x \<Longrightarrow>
   spdxId p \<noteq> ns @ ''/Repository''"
  by (elim disjE) simp_all

lemma spdxFold_distinct:
  assumes "spdxInv gen ns n (pkgs, rels, k)" and "distinct (map spdxId pkgs)"
    and "inj_on gen {n ..< k + length xs}"
    and "foldl (spdxStep gen ns) (pkgs, rels, k) xs = (pkgs', rels', k')"
  shows "distinct (map spdxId pkgs')"
  using assms
proof (induction xs arbitrary: pkgs rels k)
  case Nil
  then show ?case by simp
next
  case (Cons fi xs)
  obtain f idx where fi: "fi = (f, idx)" by (cases fi)
  obtain p1 r1 k1 where s: "spdxStep gen ns (pkgs, rels, k) (f, idx) = (p1, r1, k1)"
    by (cases "spdxStep gen ns (pkgs, rels, k) (f, idx)")
  from spdxStep_cases[OF s] obtain p where k1: "k1 = Suc k" and p1: "p1 = pkgs @ [p]"
    and pid: "spdxId p = ns @ ''/AIPackage-'' @ gen k \<or> spdxId p = ns @ ''/Package-'' @ gen k"
    by blast
  from Cons.prems(1) have nk: "n \<le> k"
    and shape: "\<forall>q \<in> set pkgs. \<exists>i. n \<le> i \<and> i < k
       \<and> (spdxId q = ns @ ''/AIPackage-'' @ gen i \<or> spdxId q = ns @ ''/Package-'' @ gen i)"
    by (simp_all add: spdxInv_def)
  have fresh: "spdxId p \<notin> set (map spdxId pkgs)"
  proof
    assume "spdxId p \<in> set (map spdxId pkgs)"
    then obtain q where q: "q \<in> set pkgs" "spdxId q = spdxId p" by auto
    from shape q(1) obtain i where i: "n \<le> i" "i < k"
      "spdxId q = ns @ ''/AIPackage-'' @ gen i \<or> spdxId q = ns @ ''/Package-'' @ gen i" by blast
    from i(3) pid q(2) have "gen i = gen k" by auto
    moreover have "i \<in> {n ..< k + length (fi # xs)}" "k \<in> {n ..< k + length (fi # xs)}"
      using i(1,2) nk by simp_all
    ultimately have "i = k" using Cons.prems(3) by (auto simp: inj_on_def)
    with i(2) show False by simp
  qed
  have inv1: "spdxInv gen ns n (p1, r1, k1)"
    using spdxStep_inv[OF Cons.prems(1), of "(f, idx)"] by (simp add: s)
  have d1: "distinct (map spdxId p1)" using Cons.prems(2) fresh by (simp add: p1)
  have inj1: "inj_on gen {n ..< k1 + length xs}" using Cons.prems(3) by (simp add: k1)
  have f1: "foldl (spdxStep gen ns) (p1, r1, k1) xs = (pkgs', rels', k')"
    using Cons.prems(4) by (simp add: fi s)
  show ?case by (rule Cons.IH[OF inv1 d1 inj1 f1])
qed

lemma spdx_init_inv: "spdxInv gen ns n ([], [], n)"
  by (simp add: spdxInv_def spdxEdgeList_def)

lemma spdx_doc_props:
  assumes "generateSPDX gen n ns fs = (doc, m)"
  shows "spdxEdgeList (spdx_relationships doc) = map (\<lambda>p. (spdx_root doc, spdxId p)) (spdx_packages doc)"
    and "\<forall>p \<in> set (spdx_packages doc). spdxId p \<noteq> spdx_root doc"
    and "map spdx_name (spdx_packages doc)
           = map (\<lambda>f. case modelInfo f of Some mi \<Rightarrow> modelName mi | None \<Rightarrow> title f) fs"
    and "m = n + length fs"
    and "inj_on gen {n ..< m} \<Longrightarrow> distinct (map spdxId (spdx_packages doc))"
proof -
  let ?xs = "zip fs [0 ..< length fs]"
  obtain pkgs rels k where f: "foldl (spdxStep gen ns) ([], [], n) ?xs = (pkgs, rels, k)"
    by (cases "foldl (spdxStep gen ns) ([], [], n) ?xs") auto
  from assms have doc: "doc = \<lparr>spdx_root = ns @ ''/Repository'', spdx_packages = pkgs,
      spdx_relationships = rels\<rparr>" and m: "m = k"
    by (simp_all add: generateSPDX_def f)
  have inv: "spdxInv gen ns n (pkgs, rels, k)"
    using spdxFold_inv[OF spdx_init_inv, of gen ns n ?xs] by (simp add: f)
  then show "spdxEdgeList (spdx_relationships doc) = map (\<lambda>p. (spdx_root doc, spdxId p)) (spdx_packages doc)"
    by (simp add: doc spdxInv_def)
  from inv have shape: "\<forall>p \<in> set pkgs. \<exists>i.
       spdxId p = ns @ ''/AIPackage-'' @ gen i \<or> spdxId p = ns @ ''/Package-'' @ gen i"
    unfolding spdxInv_def by fast
  show "\<forall>p \<in> set (spdx_packages doc). spdxId p \<noteq> spdx_root doc"
  proof
    fix p assume "p \<in> set (spdx_packages doc)"
    with shape doc obtain i where
      "spdxId p = ns @ ''/AIPackage-'' @ gen i \<or> spdxId p = ns @ ''/Package-'' @ gen i" by auto
    then have "spdxId p \<noteq> ns @ ''/Repository''" by (rule spdx_not_root)
    then show "spdxId p \<noteq> spdx_root doc" by (simp add: doc)
  qed
  from spdxFold_names[OF f] have nm: "map spdx_name pkgs
      = map (\<lambda>fi. case modelInfo (fst fi) of Some mi \<Rightarrow> modelName mi | None \<Rightarrow> title (fst fi)) ?xs"
    and k: "k = n + length fs" by simp_all
  have z: "map fst ?xs = fs" by simp
  have "map (\<lambda>fi. case modelInfo (fst fi) of Some mi \<Rightarrow> modelName mi | None \<Rightarrow> title (fst fi)) ?xs
      = map (\<lambda>f. case modelInfo f of Some mi \<Rightarrow> modelName mi | None \<Rightarrow> title f) (map fst ?xs)"
    unfolding map_map o_def ..
  then have "map (\<lambda>fi. case modelInfo (fst fi) of Some mi \<Rightarrow> modelName mi | None \<Rightarrow> title (fst fi)) ?xs
      = map (\<lambda>f. case modelInfo f of Some mi \<Rightarrow> modelName mi | None \<Rightarrow> title f) fs"
    by (simp only: z)
  then show "map spdx_name (spdx_packages doc)
           = map (\<lambda>f. case modelInfo f of Some mi \<Rightarrow> modelName mi | None \<Rightarrow> title f) fs"
    using nm by (simp add: doc)
  show "m = n + length fs" using m k by simp
  show "distinct (map spdxId (spdx_packages doc))" if "inj_on gen {n ..< m}"
  proof -
    from that have "inj_on gen {n ..< n + length ?xs}" using m k by simp
    from spdxFold_distinct[OF spdx_init_inv _ this f] show ?thesis by (simp add: doc)
  qed
qed

lemma spdx_acyclic:
  assumes "generateSPDX gen n ns fs = (doc, m)"
  shows "acyclic (set (spdxEdgeList (spdx_relationships doc)))"
proof (rule acyclicI_order[where f = "\<lambda>s. if s = spdx_root doc then 1 else (0::nat)"])
  fix a b assume "(a, b) \<in> set (spdxEdgeList (spdx_relationships doc))"
  then have "a = spdx_root doc" and "b \<in> spdxId ` set (spdx_packages doc)"
    unfolding spdx_doc_props(1)[OF assms] by auto
  with spdx_doc_props(2)[OF assms] have "a = spdx_root doc" "b \<noteq> spdx_root doc" by auto
  then show "(if b = spdx_root doc then 1 else (0::nat)) < (if a = spdx_root doc then 1 else 0)"
    by simp
qed

lemma json_components: "bom_components (fst (generateCycloneDXJson gen n own rep fs))
    = components (fst (createMLModelComponents gen n fs))"
  and json_root: "bom_root (fst (generateCycloneDXJson gen n own rep fs)) = mainRef own rep"
  and json_drawn: "snd (generateCycloneDXJson gen n own rep fs) = snd (createMLModelComponents gen n fs)"
  by (simp_all add: json_eq)

lemma xml_components: "bom_components (fst (generateCycloneDXXml gen n own rep fs))
    = components (fst (createMLModelComponents gen n fs))"
  and xml_root: "bom_root (fst (generateCycloneDXXml gen n own rep fs)) = mainRef own rep"
  by (simp_all add: xml_eq)

lemma cdx_doc_wf:
  assumes d: "bom_dependencies bom = cdxDeps (mainRef own rep) (components (fst (createMLModelComponents gen n fs)))
        md (modelRefs (fst (createMLModelComponents gen k fs))) libs"
    and c: "bom_components bom = components (fst (createMLModelComponents gen n fs))"
    and r: "bom_root bom = mainRef own rep"
    and md: "\<forall>m x. x \<in> set (md m) \<longrightarrow> height x = 0"
  shows "acyclic (set (edgeList (bom_dependencies bom)))"
    and "filter (\<lambda>e. fst e = bom_root bom) (edgeList (bom_dependencies bom))
           = map (\<lambda>c. (bom_root bom, bom_ref c)) (bom_components bom)"
    and "\<forall>c \<in> set (bom_components bom). ctype c = ''library''
           \<longrightarrow> (\<forall>t. (bom_ref c, t) \<notin> set (edgeList (bom_dependencies bom)))"
proof -
  let ?comps = "components (fst (createMLModelComponents gen n fs))"
  let ?ms = "modelRefs (fst (createMLModelComponents gen k fs))"
  have ch: "\<forall>c \<in> set ?comps. height (bom_ref c) \<le> 1" using component_height(1) by blast
  have mh: "\<forall>m \<in> set ?ms. height (bomRef m) = 1" using modelRef_height by blast
  show "acyclic (set (edgeList (bom_dependencies bom)))"
    unfolding d by (rule cdx_acyclic[OF ch mh md mainRef_height])
  show "filter (\<lambda>e. fst e = bom_root bom) (edgeList (bom_dependencies bom))
           = map (\<lambda>c. (bom_root bom, bom_ref c)) (bom_components bom)"
    unfolding d c r by (rule cdx_root_edges[OF mh mainRef_height])
  show "\<forall>c \<in> set (bom_components bom). ctype c = ''library''
           \<longrightarrow> (\<forall>t. (bom_ref c, t) \<notin> set (edgeList (bom_dependencies bom)))"
  proof (intro ballI impI allI)
    fix c t assume "c \<in> set (bom_components bom)" "ctype c = ''library''"
    then have "height (bom_ref c) = 0" unfolding c by (rule component_height(2))
    then show "(bom_ref c, t) \<notin> set (edgeList (bom_dependencies bom))"
      unfolding d by (rule cdx_library_leaves[OF _ mh mainRef_height])
  qed
qed

lemma once_if_distinct:
  "distinct (map f xs) \<Longrightarrow> x \<in> set xs \<Longrightarrow> length (filter (\<lambda>y. f y = f x) xs) = 1"
proof (induction xs)
  case Nil
  then show ?case by simp
next
  case (Cons a xs)
  show ?case
  proof (cases "f a = f x")
    case True
    with Cons.prems(1) have "\<forall>y \<in> set xs. f y \<noteq> f x" by (auto simp: image_iff)
    then have "filter (\<lambda>y. f y = f x) xs = []" by (simp add: filter_empty_conv)
    with True show ?thesis by simp
  next
    case False
    with Cons.prems(2) have "x \<in> set xs" by auto
    with Cons.IH Cons.prems(1) False show ?thesis by simp
  qed
qed

lemma root_edge_count:
  assumes e: "filter (\<lambda>e. fst e = root) es = map (\<lambda>c. (root, f c)) xs"
    and d: "distinct (map f xs)" and x: "x \<in> set xs"
  shows "length (filter (\<lambda>e. e = (root, f x)) es) = 1"
proof -
  have "filter (\<lambda>e. e = (root, f x)) es
      = filter (\<lambda>e. e = (root, f x)) (filter (\<lambda>e. fst e = root) es)"
    by (simp add: conj_commute cong: conj_cong) (rule filter_cong, auto)
  also have "\<dots> = filter (\<lambda>e. e = (root, f x)) (map (\<lambda>c. (root, f c)) xs)"
    by (simp only: e)
  also have "\<dots> = map (\<lambda>c. (root, f c)) (filter (\<lambda>y. f y = f x) xs)"
    by (simp add: filter_map o_def)
  finally show ?thesis using once_if_distinct[OF d x] by simp
qed

text \<open>
  Claim C7. In the CycloneDX JSON document, in the CycloneDX XML document and in the
  SPDX document made from any selected findings, the dependency edges are acyclic; the
  edges from the root are one for each component (package), in order; no library
  component has an outgoing edge (in the SPDX document no package is the root, which is
  the only source); and when the random identifiers drawn do not collide, the components
  have distinct references and each component has exactly one incoming edge from the root.
\<close>

theorem bom_graph_well_formed:
  fixes gen :: "nat \<Rightarrow> string" and n :: nat and own rep ns :: string and fs :: "finding list"
  defines "bom \<equiv> fst (generateCycloneDXJson gen n own rep fs)"
    and "xbom \<equiv> fst (generateCycloneDXXml gen n own rep fs)"
    and "doc \<equiv> fst (generateSPDX gen n ns fs)"
  shows "acyclic (set (edgeList (bom_dependencies bom)))
    \<and> filter (\<lambda>e. fst e = bom_root bom) (edgeList (bom_dependencies bom))
         = map (\<lambda>c. (bom_root bom, bom_ref c)) (bom_components bom)
    \<and> (\<forall>c \<in> set (bom_components bom). ctype c = ''library''
         \<longrightarrow> (\<forall>t. (bom_ref c, t) \<notin> set (edgeList (bom_dependencies bom))))
    \<and> (inj_on gen {n ..< snd (generateCycloneDXJson gen n own rep fs)}
         \<longrightarrow> distinct (map bom_ref (bom_components bom))
           \<and> (\<forall>c \<in> set (bom_components bom).
                 length (filter (\<lambda>e. e = (bom_root bom, bom_ref c))
                           (edgeList (bom_dependencies bom))) = 1))
    \<and> acyclic (set (edgeList (bom_dependencies xbom)))
    \<and> filter (\<lambda>e. fst e = bom_root xbom) (edgeList (bom_dependencies xbom))
         = map (\<lambda>c. (bom_root xbom, bom_ref c)) (bom_components xbom)
    \<and> (\<forall>c \<in> set (bom_components xbom). ctype c = ''library''
         \<longrightarrow> (\<forall>t. (bom_ref c, t) \<notin> set (edgeList (bom_dependencies xbom))))
    \<and> (inj_on gen {n ..< snd (generateCycloneDXJson gen n own rep fs)}
         \<longrightarrow> distinct (map bom_ref (bom_components xbom))
           \<and> (\<forall>c \<in> set (bom_components xbom).
                 length (filter (\<lambda>e. e = (bom_root xbom, bom_ref c))
                           (edgeList (bom_dependencies xbom))) = 1))
    \<and> acyclic (set (spdxEdgeList (spdx_relationships doc)))
    \<and> spdxEdgeList (spdx_relationships doc) = map (\<lambda>p. (spdx_root doc, spdxId p)) (spdx_packages doc)
    \<and> (\<forall>p \<in> set (spdx_packages doc). spdxId p \<noteq> spdx_root doc)
    \<and> (inj_on gen {n ..< snd (generateSPDX gen n ns fs)}
         \<longrightarrow> distinct (map spdxId (spdx_packages doc))
           \<and> (\<forall>p \<in> set (spdx_packages doc).
                 length (filter (\<lambda>e. e = (spdx_root doc, spdxId p))
                           (spdxEdgeList (spdx_relationships doc))) = 1))"
proof -
  have jd: "bom_dependencies bom = cdxDeps (mainRef own rep) (components (fst (createMLModelComponents gen n fs)))
        (modelDepsJson (map bom_ref (libraryRefs (fst (createMLModelComponents gen n fs)))))
        (modelRefs (fst (createMLModelComponents gen n fs)))
        (libraryRefs (fst (createMLModelComponents gen n fs)))"
    by (simp add: bom_def json_eq)
  have jc: "bom_components bom = components (fst (createMLModelComponents gen n fs))"
    and jr: "bom_root bom = mainRef own rep"
    by (simp_all add: bom_def json_eq)
  have jm: "\<forall>m x. x \<in> set (modelDepsJson
       (map bom_ref (libraryRefs (fst (createMLModelComponents gen n fs)))) m) \<longrightarrow> height x = 0"
    using modelDepsJson_height by blast
  note j = cdx_doc_wf[OF jd jc jr jm]
  let ?k = "snd (createMLModelComponents gen n fs)"
  have xd: "bom_dependencies xbom = cdxDeps (mainRef own rep) (components (fst (createMLModelComponents gen n fs)))
        (modelDepsXml (map bom_ref (libraryRefs (fst (createMLModelComponents gen ?k fs)))))
        (modelRefs (fst (createMLModelComponents gen ?k fs)))
        (libraryRefs (fst (createMLModelComponents gen ?k fs)))"
    by (simp add: xbom_def xml_eq)
  have xc: "bom_components xbom = components (fst (createMLModelComponents gen n fs))"
    and xr: "bom_root xbom = mainRef own rep"
    by (simp_all add: xbom_def xml_eq)
  have xm: "\<forall>m x. x \<in> set (modelDepsXml
       (map bom_ref (libraryRefs (fst (createMLModelComponents gen ?k fs)))) m) \<longrightarrow> height x = 0"
    using modelDepsXml_height by blast
  note x = cdx_doc_wf[OF xd xc xr xm]
  have dist: "distinct (map bom_ref (components (fst (createMLModelComponents gen n fs))))"
    if "inj_on gen {n ..< snd (generateCycloneDXJson gen n own rep fs)}"
    using that unfolding json_drawn by (rule components_distinct)
  have jdist: "distinct (map bom_ref (bom_components bom))
      \<and> (\<forall>c \<in> set (bom_components bom).
            length (filter (\<lambda>e. e = (bom_root bom, bom_ref c)) (edgeList (bom_dependencies bom))) = 1)"
    if i: "inj_on gen {n ..< snd (generateCycloneDXJson gen n own rep fs)}"
  proof -
    have d: "distinct (map bom_ref (bom_components bom))" unfolding jc by (rule dist[OF i])
    show ?thesis using root_edge_count[OF j(2) d] d by blast
  qed
  have xdist: "distinct (map bom_ref (bom_components xbom))
      \<and> (\<forall>c \<in> set (bom_components xbom).
            length (filter (\<lambda>e. e = (bom_root xbom, bom_ref c)) (edgeList (bom_dependencies xbom))) = 1)"
    if i: "inj_on gen {n ..< snd (generateCycloneDXJson gen n own rep fs)}"
  proof -
    have d: "distinct (map bom_ref (bom_components xbom))" unfolding xc by (rule dist[OF i])
    show ?thesis using root_edge_count[OF x(2) d] d by blast
  qed
  obtain m where s: "generateSPDX gen n ns fs = (doc, m)"
    unfolding doc_def by (cases "generateSPDX gen n ns fs") simp
  note sp = spdx_doc_props[OF s] spdx_acyclic[OF s]
  have se: "filter (\<lambda>e. fst e = spdx_root doc) (spdxEdgeList (spdx_relationships doc))
      = map (\<lambda>p. (spdx_root doc, spdxId p)) (spdx_packages doc)"
    unfolding sp(1) by (simp add: filter_map o_def)
  have sdist: "distinct (map spdxId (spdx_packages doc))
      \<and> (\<forall>p \<in> set (spdx_packages doc).
            length (filter (\<lambda>e. e = (spdx_root doc, spdxId p)) (spdxEdgeList (spdx_relationships doc))) = 1)"
    if i: "inj_on gen {n ..< snd (generateSPDX gen n ns fs)}"
  proof -
    have d: "distinct (map spdxId (spdx_packages doc))" using sp(5) i by (simp add: s)
    show ?thesis using root_edge_count[OF se d] d by blast
  qed
  show ?thesis
    using j x jdist xdist sp(1,2,6) sdist by blast
qed

theorem bom_graph_well_formed_witness:
  "acyclic (set (edgeList (bom_dependencies
       (fst (generateCycloneDXJson natToString 0 ''acme'' ''bot'' [exampleTorchDep, exampleImageModel])))))
   \<and> distinct (map bom_ref (bom_components
       (fst (generateCycloneDXJson natToString 0 ''acme'' ''bot'' [exampleTorchDep, exampleImageModel]))))
   \<and> distinct (map bom_ref (bom_components
       (fst (generateCycloneDXXml natToString 0 ''acme'' ''bot'' [exampleTorchDep, exampleImageModel]))))
   \<and> distinct (map spdxId (spdx_packages
       (fst (generateSPDX natToString 0 exampleNs [exampleTorchDep, exampleImageModel]))))
   \<and> length (filter (\<lambda>e. e = (''repo-acme-bot'', ''model-1''))
         (edgeList (bom_dependencies
            (fst (generateCycloneDXJson natToString 0 ''acme'' ''bot'' [exampleTorchDep, exampleImageModel]))))) = 1"
proof -
  let ?fs = "[exampleTorchDep, exampleImageModel]"
  let ?bom = "fst (generateCycloneDXJson natToString 0 ''acme'' ''bot'' ?fs)"
  have d: "distinct (map natToString [0 ..< 2])" by code_simp
  have "inj_on natToString (set [0 ..< 2])" using d by (simp only: distinct_map)
  then have inj: "inj_on natToString {0 ..< 2}" by simp
  have n1: "snd (generateCycloneDXJson natToString 0 ''acme'' ''bot'' ?fs) = 2" by code_simp
  have n2: "snd (generateSPDX natToString 0 exampleNs ?fs) = 2" by code_simp
  have h1: "inj_on natToString {0 ..< snd (generateCycloneDXJson natToString 0 ''acme'' ''bot'' ?fs)}"
    unfolding n1 by (rule inj)
  have h2: "inj_on natToString {0 ..< snd (generateSPDX natToString 0 exampleNs ?fs)}"
    unfolding n2 by (rule inj)
  have refs: "map bom_ref (bom_components ?bom)
      = [''component-0'', ''model-1'', ''lib-diffusers'', ''lib-pytorch'']" by code_simp
  have root: "bom_root ?bom = ''repo-acme-bot''" by code_simp
  have "''model-1'' \<in> set (map bom_ref (bom_components ?bom))" unfolding refs by simp
  then obtain c where c: "c \<in> set (bom_components ?bom)" "bom_ref c = ''model-1''" by auto
  note t = bom_graph_well_formed[of natToString 0 "''acme''" "''bot''" ?fs exampleNs]
  from t h1 c(1) have "length (filter (\<lambda>e. e = (bom_root ?bom, bom_ref c))
      (edgeList (bom_dependencies ?bom))) = 1" by blast
  then have one: "length (filter (\<lambda>e. e = (''repo-acme-bot'', ''model-1''))
      (edgeList (bom_dependencies ?bom))) = 1" by (simp only: root c(2))
  show ?thesis using t h1 h2 one by blast
qed

section \<open>The serializers compared\<close>

text \<open>
  Claim C2, as the code has it. For the same selected findings and the same draws of
  random identifiers, the CycloneDX XML document has the components of the CycloneDX
  JSON document and the same edges from the root, and the extended AIBOM embeds the
  CycloneDX JSON document. The SPDX document has one package for each selected finding,
  named by the model or by the finding's title, and its relationships are exactly one from
  the repository element to each package.
\<close>

theorem serializers_share_components:
  fixes gen :: "nat \<Rightarrow> string" and n :: nat and own rep ns :: string and fs :: "finding list"
  defines "bom \<equiv> fst (generateCycloneDXJson gen n own rep fs)"
    and "xbom \<equiv> fst (generateCycloneDXXml gen n own rep fs)"
    and "doc \<equiv> fst (generateSPDX gen n ns fs)"
  shows "bom_components xbom = bom_components bom
    \<and> bom_root xbom = bom_root bom
    \<and> filter (\<lambda>e. fst e = bom_root xbom) (edgeList (bom_dependencies xbom))
         = filter (\<lambda>e. fst e = bom_root bom) (edgeList (bom_dependencies bom))
    \<and> standard_bom (fst (generateExtendedAIBOM gen n own rep fs)) = bom
    \<and> map spdx_name (spdx_packages doc)
         = map (\<lambda>f. case modelInfo f of Some mi \<Rightarrow> modelName mi | None \<Rightarrow> title f) fs
    \<and> spdxEdgeList (spdx_relationships doc)
         = map (\<lambda>p. (spdx_root doc, spdxId p)) (spdx_packages doc)"
proof -
  have a: "bom_components xbom = bom_components bom" "bom_root xbom = bom_root bom"
    by (simp_all add: bom_def xbom_def json_eq xml_eq)
  let ?r = "fst (createMLModelComponents gen n fs)"
  let ?k = "snd (createMLModelComponents gen n fs)"
  have mh: "\<forall>m \<in> set (modelRefs (fst (createMLModelComponents gen k fs))). height (bomRef m) = 1" for k
    using modelRef_height by blast
  have je: "filter (\<lambda>e. fst e = bom_root bom) (edgeList (bom_dependencies bom))
      = map (\<lambda>c. (mainRef own rep, bom_ref c)) (components ?r)"
    unfolding bom_def json_eq fst_conv cdx_bom.simps
    by (rule cdx_root_edges[OF mh mainRef_height])
  have xe: "filter (\<lambda>e. fst e = bom_root xbom) (edgeList (bom_dependencies xbom))
      = map (\<lambda>c. (mainRef own rep, bom_ref c)) (components ?r)"
    unfolding xbom_def xml_eq fst_conv cdx_bom.simps
    by (rule cdx_root_edges[OF mh mainRef_height])
  have e: "standard_bom (fst (generateExtendedAIBOM gen n own rep fs)) = bom"
    by (simp add: generateExtendedAIBOM_def bom_def split: prod.splits)
  obtain m where s: "generateSPDX gen n ns fs = (doc, m)"
    unfolding doc_def by (cases "generateSPDX gen n ns fs") simp
  show ?thesis
    using a je xe e spdx_doc_props(1,3)[OF s] by simp
qed

theorem serializers_share_components_witness:
  "bom_components (fst (generateCycloneDXXml natToString 0 ''acme'' ''bot'' [exampleTorchDep, exampleImageModel]))
     = bom_components (fst (generateCycloneDXJson natToString 0 ''acme'' ''bot'' [exampleTorchDep, exampleImageModel]))
   \<and> map spdx_name (spdx_packages (fst (generateSPDX natToString 0 exampleNs [exampleTorchDep, exampleImageModel])))
     = [''Dependency: torch'', ''stabilityai/stable-diffusion-2'']"
proof -
  have "map (\<lambda>f. case modelInfo f of Some mi \<Rightarrow> modelName mi | None \<Rightarrow> title f)
          [exampleTorchDep, exampleImageModel]
      = [''Dependency: torch'', ''stabilityai/stable-diffusion-2'']"
    by (simp add: exampleTorchDep_def exampleImageModel_def)
  then show ?thesis
    using serializers_share_components[of natToString 0 "''acme''" "''bot''"
        "[exampleTorchDep, exampleImageModel]" exampleNs]
    by simp
qed

text \<open>
  The claim as it is stated fails: for one finding of an open model the CycloneDX JSON
  document has two components, the model and the library it implies, and the SPDX
  document has one package.
\<close>

theorem serializers_component_sets_differ_counterexample:
  "map comp_name (bom_components (fst (generateCycloneDXJson natToString 0 ''acme'' ''bot'' [exampleModel])))
     = [''meta-llama/Llama-3-8B-Instruct'', ''Transformers'']
   \<and> map spdx_name (spdx_packages (fst (generateSPDX natToString 0 exampleNs [exampleModel])))
     = [''meta-llama/Llama-3-8B-Instruct'']"
  by code_simp

text \<open>
  The dependencies of a model are not the same in the two CycloneDX documents: for an
  image model the JSON document refers to \<open>lib-diffusers\<close> and \<open>lib-pytorch\<close>, the XML
  document to \<open>lib-diffusers\<close> only, and under a reference drawn anew.
\<close>

lemma xml_model_dependencies_differ:
  "map (\<lambda>d. (dep_ref d, dependsOn d)) (bom_dependencies
       (fst (generateCycloneDXJson natToString 0 ''acme'' ''bot'' [exampleTorchDep, exampleImageModel])))
     = [(''repo-acme-bot'', [''component-0'', ''model-1'', ''lib-diffusers'', ''lib-pytorch'']),
        (''model-1'', [''lib-diffusers'', ''lib-pytorch'']),
        (''lib-diffusers'', []), (''lib-pytorch'', [])]
   \<and> map (\<lambda>d. (dep_ref d, dependsOn d)) (bom_dependencies
       (fst (generateCycloneDXXml natToString 0 ''acme'' ''bot'' [exampleTorchDep, exampleImageModel])))
     = [(''repo-acme-bot'', [''component-0'', ''model-1'', ''lib-diffusers'', ''lib-pytorch'']),
        (''model-3'', [''lib-diffusers'']),
        (''lib-diffusers'', []), (''lib-pytorch'', [])]"
  by code_simp

end
